theory Spec2Isabelle
  imports Complex_Main "HOL-Library.Multiset"
begin

section \<open>JavaScript values\<close>

text \<open>
  A JavaScript string is a sequence of UTF-16 code units. A code unit is modelled by its
  number, so that the white space of \<^verbatim>\<open>trim()\<close> and of the regular expression class
  \<^verbatim>\<open>\s\<close> (which reaches beyond ASCII) is the one of the language. \<open>js\<close> turns a
  literal into such a string. A JavaScript \<^verbatim>\<open>number\<close> is modelled as a real: every
  number the scripts compute is an integer far below \<open>2^53\<close>, where doubles are exact.
\<close>

type_synonym js_char = nat
type_synonym js_string = "js_char list"

definition js :: "string \<Rightarrow> js_string" where
  "js s = map of_char s"

definition is_js_space :: "js_char \<Rightarrow> bool" where
  "is_js_space c \<longleftrightarrow>
     c = 9 \<or> c = 10 \<or> c = 11 \<or> c = 12 \<or> c = 13 \<or> c = 32 \<or> c = 160 \<or> c = 5760 \<or>
     (8192 \<le> c \<and> c \<le> 8202) \<or> c = 8232 \<or> c = 8233 \<or> c = 8239 \<or> c = 8287 \<or>
     c = 12288 \<or> c = 65279"

definition is_js_digit :: "js_char \<Rightarrow> bool" where
  "is_js_digit c \<longleftrightarrow> 48 \<le> c \<and> c \<le> 57"

text \<open>\<^verbatim>\<open>s.trim()\<close>\<close>

definition js_trim :: "js_string \<Rightarrow> js_string" where
  "js_trim s = rev (dropWhile is_js_space (rev (dropWhile is_js_space s)))"

fun cons_first :: "'a \<Rightarrow> 'a list list \<Rightarrow> 'a list list" where
  "cons_first c [] = [[c]]"
| "cons_first c (b # bs) = (c # b) # bs"

text \<open>
  \<^verbatim>\<open>s.split(/\n\n+/)\<close>: the separator is the longest run of two or more line feeds
  starting at the leftmost position where two line feeds meet; the empty string splits
  into one empty piece.
\<close>

function js_split_blank :: "js_string \<Rightarrow> js_string list" where
  "js_split_blank [] = [[]]"
| "js_split_blank (c # cs) =
     (if c = 10 \<and> cs \<noteq> [] \<and> hd cs = 10
      then [] # js_split_blank (dropWhile (\<lambda>x. x = 10) cs)
      else cons_first c (js_split_blank cs))"
  by pat_completeness auto
termination
  by (relation "measure length") (auto simp: le_imp_less_Suc length_dropWhile_le)

text \<open>\<^verbatim>\<open>s.split("\n")\<close>\<close>

fun js_split_nl :: "js_string \<Rightarrow> js_string list" where
  "js_split_nl [] = [[]]"
| "js_split_nl (c # cs) =
     (if c = 10 then [] # js_split_nl cs else cons_first c (js_split_nl cs))"

text \<open>\<^verbatim>\<open>s.includes(pat)\<close>\<close>

fun js_includes :: "js_string \<Rightarrow> js_string \<Rightarrow> bool" where
  "js_includes [] pat = (pat = [])"
| "js_includes (c # cs) pat = (take (length pat) (c # cs) = pat \<or> js_includes cs pat)"

text \<open>\<^verbatim>\<open>xs.indexOf(x)\<close>, \<open>-1\<close> when absent, and \<^verbatim>\<open>xs.slice(k)\<close>.\<close>

fun js_indexOf :: "'a list \<Rightarrow> 'a \<Rightarrow> int" where
  "js_indexOf [] x = - 1"
| "js_indexOf (y # ys) x =
     (if y = x then 0 else (let k = js_indexOf ys x in if k < 0 then - 1 else k + 1))"

definition js_slice :: "int \<Rightarrow> 'a list \<Rightarrow> 'a list" where
  "js_slice k xs = (if k < 0 then drop (nat (int (length xs) + k)) xs else drop (nat k) xs)"

text \<open>\<^verbatim>\<open>xs.join(sep)\<close>\<close>

fun js_join :: "js_string \<Rightarrow> js_string list \<Rightarrow> js_string" where
  "js_join sep [] = []"
| "js_join sep [x] = x"
| "js_join sep (x # y # ys) = x @ sep @ js_join sep (y # ys)"

text \<open>
  \<^verbatim>\<open>s.replace(/<[^>]+>/g, "")\<close>: a match starts at a \<open><\<close> (60) that is followed by at
  least one code unit other than \<open>>\<close> (62) and, later, by a \<open>>\<close>; it ends at the first
  such \<open>>\<close>. The scan goes on after the match.
\<close>

function strip_tags :: "js_string \<Rightarrow> js_string" where
  "strip_tags [] = []"
| "strip_tags (c # cs) =
     (if c = 60 \<and> cs \<noteq> [] \<and> hd cs \<noteq> 62 \<and> 62 \<in> set cs
      then strip_tags (tl (dropWhile (\<lambda>x. x \<noteq> 62) cs))
      else c # strip_tags cs)"
  by pat_completeness auto
termination
proof (relation "measure length")
  fix c :: js_char and cs :: js_string
  have "length (tl (dropWhile (\<lambda>x. x \<noteq> 62) cs)) \<le> length cs"
    using length_dropWhile_le [of "\<lambda>x. x \<noteq> 62" cs] by simp
  then show "(tl (dropWhile (\<lambda>x. x \<noteq> 62) cs), c # cs) \<in> measure length"
    by simp
qed simp_all

text \<open>
  \<^verbatim>\<open>parseInt(s)\<close> on a string of decimal digits. The only strings the scripts parse
  this way are the groups \<^verbatim>\<open>(\d{2})\<close> and \<^verbatim>\<open>(\d{3})\<close> of a match, which hold ASCII
  digits only.
\<close>

definition digits_value :: "js_string \<Rightarrow> nat" where
  "digits_value ds = foldl (\<lambda>a c. 10 * a + (c - 48)) 0 ds"

definition parseInt :: "js_string \<Rightarrow> real" where
  "parseInt s = real (digits_value s)"

text \<open>
  \<^verbatim>\<open>parseInt(s, 10)\<close> on any string: leading white space, a sign, then the longest run
  of decimal digits; \<open>None\<close> is \<^verbatim>\<open>NaN\<close>. (Beyond \<open>2^53\<close> JavaScript rounds the value;
  the only use of the result is as the end of a \<^verbatim>\<open>slice\<close>, where this changes nothing.)
\<close>

definition js_parseInt10 :: "js_string \<Rightarrow> int option" where
  "js_parseInt10 s =
     (let t = dropWhile is_js_space s;
          neg = (t \<noteq> [] \<and> hd t = 45);
          u = (if t \<noteq> [] \<and> (hd t = 45 \<or> hd t = 43) then tl t else t);
          ds = takeWhile is_js_digit u
      in if ds = [] then None
         else Some (if neg then - int (digits_value ds) else int (digits_value ds)))"

text \<open>\<^verbatim>\<open>xs[i]\<close> (\<open>None\<close> is \<^verbatim>\<open>undefined\<close>) and \<^verbatim>\<open>xs.slice(0, k)\<close> for a number \<open>k\<close>.\<close>

definition js_nth :: "'a list \<Rightarrow> int \<Rightarrow> 'a option" where
  "js_nth xs i = (if 0 \<le> i \<and> i < int (length xs) then Some (xs ! nat i) else None)"

definition js_slice_to :: "int option \<Rightarrow> 'a list \<Rightarrow> 'a list" where
  "js_slice_to k xs =
     (case k of
        None \<Rightarrow> []
      | Some n \<Rightarrow> if n < 0 then take (nat (int (length xs) + n)) xs else take (nat n) xs)"

section \<open>The data model of the caption scripts\<close>

record VideoInfo =
  video_id :: js_string
  title :: js_string
  url :: js_string
  video_duration :: real
  playlistId :: js_string
  playlistTitle :: js_string

record CaptionEntry =
  entry_text :: js_string
  offset :: real
  duration :: real

record VideoCaption =
  video :: VideoInfo
  captions :: "CaptionEntry list"
  fetchedAt :: js_string

record FailedVideo =
  failed_id :: js_string
  error :: js_string
  lastAttempt :: js_string

record Progress =
  processedVideos :: "js_string list"
  failedVideos :: "FailedVideo list"
  lastRun :: js_string

section \<open>The subtitle-file parser (\<^verbatim>\<open>parseVttFile\<close>)\<close>

definition arrow :: js_string where
  "arrow = [45, 45, 62]"

text \<open>
  The regular expression
  \<^verbatim>\<open>/(\d{2}):(\d{2}):(\d{2})\.(\d{3})\s*-->\s*(\d{2}):(\d{2}):(\d{2})\.(\d{3})/\<close>.
  \<open>take_digits n\<close> is \<^verbatim>\<open>(\d{n})\<close>, \<open>expect_lit\<close> a literal. The greedy \<^verbatim>\<open>\s*\<close>
  is \<open>dropWhile is_js_space\<close>: what follows it (a hyphen, a digit) is no white space, so
  giving white space back can never help. \<open>match_at\<close> is the match at the start of the
  string, \<open>match_timestamp\<close> the leftmost match, as \<^verbatim>\<open>String.prototype.match\<close> finds
  it; its result holds the eight groups \<^verbatim>\<open>match[1..8]\<close> at the indices 0 to 7.
\<close>

definition take_digits :: "nat \<Rightarrow> js_string \<Rightarrow> (js_string \<times> js_string) option" where
  "take_digits n s =
     (if n \<le> length s \<and> list_all is_js_digit (take n s) then Some (take n s, drop n s)
      else None)"

definition expect_lit :: "js_string \<Rightarrow> js_string \<Rightarrow> js_string option" where
  "expect_lit lit s = (if take (length lit) s = lit then Some (drop (length lit) s) else None)"

definition match_clock :: "js_string \<Rightarrow> (js_string list \<times> js_string) option" where
  "match_clock s =
     (case take_digits 2 s of None \<Rightarrow> None
      | Some (h, s1) \<Rightarrow>
     (case expect_lit [58] s1 of None \<Rightarrow> None
      | Some s2 \<Rightarrow>
     (case take_digits 2 s2 of None \<Rightarrow> None
      | Some (m, s3) \<Rightarrow>
     (case expect_lit [58] s3 of None \<Rightarrow> None
      | Some s4 \<Rightarrow>
     (case take_digits 2 s4 of None \<Rightarrow> None
      | Some (sec, s5) \<Rightarrow>
     (case expect_lit [46] s5 of None \<Rightarrow> None
      | Some s6 \<Rightarrow>
     (case take_digits 3 s6 of None \<Rightarrow> None
      | Some (ms, s7) \<Rightarrow> Some ([h, m, sec, ms], s7))))))))"

definition match_at :: "js_string \<Rightarrow> js_string list option" where
  "match_at s =
     (case match_clock s of None \<Rightarrow> None
      | Some (g1, s1) \<Rightarrow>
     (case expect_lit arrow (dropWhile is_js_space s1) of None \<Rightarrow> None
      | Some s2 \<Rightarrow>
     (case match_clock (dropWhile is_js_space s2) of None \<Rightarrow> None
      | Some (g2, s3) \<Rightarrow> Some (g1 @ g2))))"

fun match_timestamp :: "js_string \<Rightarrow> js_string list option" where
  "match_timestamp [] = match_at []"
| "match_timestamp (c # cs) =
     (case match_at (c # cs) of Some g \<Rightarrow> Some g | None \<Rightarrow> match_timestamp cs)"

text \<open>
  The body of the loop over the blocks: \<open>None\<close> is \<^verbatim>\<open>continue\<close> (no line with an
  arrow, or no match on that line) or a block whose text is empty; \<open>Some e\<close> is the
  entry pushed.
\<close>

definition parseVttBlock :: "js_string \<Rightarrow> CaptionEntry option" where
  "parseVttBlock block =
     (let lines = js_split_nl (js_trim block) in
      case find (\<lambda>l. js_includes l arrow) lines of
        None \<Rightarrow> None
      | Some timestampLine \<Rightarrow>
          (case match_timestamp timestampLine of
             None \<Rightarrow> None
           | Some m \<Rightarrow>
               (let startMs = parseInt (m ! 0) * 3600000 + parseInt (m ! 1) * 60000 +
                              parseInt (m ! 2) * 1000 + parseInt (m ! 3);
                    endMs = parseInt (m ! 4) * 3600000 + parseInt (m ! 5) * 60000 +
                            parseInt (m ! 6) * 1000 + parseInt (m ! 7);
                    textStartIdx = js_indexOf lines timestampLine + 1;
                    text = js_trim (strip_tags (js_join [32] (js_slice textStartIdx lines)))
                in if text \<noteq> []
                   then Some \<lparr>entry_text = text, offset = startMs, duration = endMs - startMs\<rparr>
                   else None)))"

definition parseVttContent :: "js_string \<Rightarrow> CaptionEntry list" where
  "parseVttContent content = List.map_filter parseVttBlock (js_split_blank content)"

text \<open>
  The file system is a map from paths to contents; a path outside its domain is a file
  that does not exist.
\<close>

definition parseVttFile :: "(js_string \<rightharpoonup> js_string) \<Rightarrow> js_string \<Rightarrow> CaptionEntry list" where
  "parseVttFile fs vttPath =
     (case fs vttPath of None \<Rightarrow> [] | Some content \<Rightarrow> parseVttContent content)"

section \<open>The parsing contract, in the words of the specification\<close>






section \<open>The world outside the scripts\<close>

text \<open>
  What the scripts read from outside is a parameter of the model, one field each:
  \<^item> \<open>progress_file\<close>: \<^verbatim>\<open>data/progress.json\<close> as \<^verbatim>\<open>Bun.file\<close> finds it: missing,
    present but rejected by \<^verbatim>\<open>file.json()\<close>, or holding a ledger;
  \<^item> \<open>playlist_dump\<close>: the output of \<^verbatim>\<open>yt-dlp --flat-playlist --dump-json\<close> for a
    playlist id, line by line (\<open>None\<close>: an empty line or one \<^verbatim>\<open>JSON.parse\<close> rejects),
    or \<open>None\<close> when the command fails;
  \<^item> \<open>fetchTranscript\<close>: what \<^verbatim>\<open>YoutubeTranscript.fetchTranscript\<close> does for a video id;
  \<^item> \<open>subtitle_download\<close>: the files under \<^verbatim>\<open>data/temp\<close> after \<^verbatim>\<open>mkdir\<close> and the
    subtitle download of a video id, or \<open>None\<close> when one of the two commands fails;
  \<^item> \<open>video_dump\<close>, \<open>audio_download\<close>, \<open>groq_transcribe\<close>: the collaborators of the
    speech-to-text script (\<open>None\<close> and \<open>False\<close>: the call throws);
  \<^item> \<open>groq_client\<close>: the exception \<^verbatim>\<open>new Groq()\<close> throws while the module loads, if any;
  \<^item> \<open>argv\<close>: \<^verbatim>\<open>process.argv\<close>;
  \<^item> \<open>clock\<close>: the \<open>k\<close>-th reading of \<^verbatim>\<open>new Date().toISOString()\<close> in a run;
  \<^item> \<open>scheduler\<close>: the order in which the runtime resumes the suspended tasks.
  Writes to the ledger and to the caption files are assumed to succeed.
\<close>

datatype js_error = SyntaxError | GroqError

datatype 'a json_file = Missing | Unparsable | Holds 'a

record YtDlpEntry =
  entry_id :: js_string
  entry_title :: "js_string option"
  entry_duration :: "real option"

record TranscriptResponse =
  t_text :: js_string
  t_duration :: real
  t_offset :: real
  t_lang :: "js_string option"

datatype transcript_outcome = Threw | Returned "TranscriptResponse list option"

record VideoJson =
  json_title :: "js_string option"
  json_duration :: "real option"
  json_playlist_id :: "js_string option"
  json_playlist_title :: "js_string option"

record GroqSegment =
  seg_start :: real
  seg_end :: real
  seg_text :: js_string

record world =
  progress_file :: "Progress json_file"
  playlist_dump :: "js_string \<Rightarrow> YtDlpEntry option list option"
  fetchTranscript :: "js_string \<Rightarrow> transcript_outcome"
  subtitle_download :: "js_string \<Rightarrow> (js_string \<rightharpoonup> js_string) option"
  video_dump :: "js_string \<Rightarrow> VideoJson option"
  audio_download :: "js_string \<Rightarrow> bool"
  groq_transcribe :: "js_string \<Rightarrow> js_string \<Rightarrow> GroqSegment list option option"
  groq_client :: "js_error option"
  argv :: "js_string list"
  clock :: "nat \<Rightarrow> js_string"
  scheduler :: "nat list"

text \<open>
  The store of a run: the ledger in memory, the counters of \<^verbatim>\<open>main\<close> (\<open>processed\<close> and
  \<open>failed\<close> are \<^verbatim>\<open>successCount\<close> and \<^verbatim>\<open>failCount\<close> in the speech-to-text script), the
  number of clock readings so far, every write to a caption file and to the ledger file
  in the order it was issued, and the adapters the resolver has called.
\<close>

datatype adapter = DirectCaption | SubtitleFile | SpeechToText

record run_state =
  progress :: Progress
  completed :: nat
  processed :: nat
  failed :: nat
  ticks :: nat
  caption_files :: "VideoCaption list"
  progress_writes :: "Progress list"
  adapter_calls :: "(adapter \<times> js_string) list"

definition init_state :: "Progress \<Rightarrow> run_state" where
  "init_state p = \<lparr>progress = p, completed = 0, processed = 0, failed = 0, ticks = 0,
     caption_files = [], progress_writes = [], adapter_calls = []\<rparr>"

section \<open>The ledger (\<^verbatim>\<open>loadProgress\<close>, \<^verbatim>\<open>saveProgress\<close>, \<^verbatim>\<open>saveCaptions\<close>)\<close>

text \<open>The same three functions stand in both scripts.\<close>

definition loadProgress :: "Progress json_file \<Rightarrow> js_error + Progress" where
  "loadProgress file =
     (case file of
        Holds p \<Rightarrow> Inr p
      | Unparsable \<Rightarrow> Inl SyntaxError
      | Missing \<Rightarrow> Inr \<lparr>processedVideos = [], failedVideos = [], lastRun = []\<rparr>)"

definition saveProgress :: "world \<Rightarrow> run_state \<Rightarrow> run_state" where
  "saveProgress w s =
     (let p = (progress s)\<lparr>lastRun := clock w (ticks s)\<rparr>
      in s\<lparr>progress := p, ticks := ticks s + 1, progress_writes := progress_writes s @ [p]\<rparr>)"

definition saveCaptions :: "VideoCaption \<Rightarrow> run_state \<Rightarrow> run_state" where
  "saveCaptions caption s = s\<lparr>caption_files := caption_files s @ [caption]\<rparr>"

section \<open>The cooperative scheduler (\<^verbatim>\<open>pLimit\<close> and \<^verbatim>\<open>Promise.all\<close>)\<close>

text \<open>
  A task is the list of its segments: the pieces of code between two \<^verbatim>\<open>await\<close>s that
  touch the store, each run without interruption. \<open>sched_trace cap tasks sch\<close> is the
  order in which the segments of all tasks run: the scheduler picks task \<open>i\<close>, which runs
  its next segment, if fewer than \<open>cap\<close> of the tasks before it are unfinished (\<^verbatim>\<open>pLimit\<close>
  starts the tasks in order, at most \<open>cap\<close> at a time); any other pick is skipped. When
  the picks are used up the remaining tasks run one after the other.
\<close>

fun sched_trace :: "nat \<Rightarrow> 'e list list \<Rightarrow> nat list \<Rightarrow> 'e list" where
  "sched_trace cap tasks [] = concat tasks"
| "sched_trace cap tasks (i # sch) =
     (if i < length tasks \<and> length (filter (\<lambda>t. t \<noteq> []) (take i tasks)) < cap
      then (case tasks ! i of
              [] \<Rightarrow> sched_trace cap tasks sch
            | e # es \<Rightarrow> e # sched_trace cap (tasks[i := es]) sch)
      else sched_trace cap tasks sch)"

section \<open>The caption grabber (\<^verbatim>\<open>scripts/grab-captions.ts\<close>)\<close>

definition PLAYLISTS :: "(js_string \<times> js_string) list" where
  "PLAYLISTS =
     [(js ''PLAbMhAYRuCUhawCEV2oXZGrienoKTN16X'', js ''Zero Punctuation''),
      (js ''PLUBKwq0XD0ueR3CXGUhGpsD1puLcYJPUp'', js ''Second Wind'')]"

definition CONCURRENCY_LIMIT_grab :: nat where
  "CONCURRENCY_LIMIT_grab = 10"

text \<open>\<^verbatim>\<open>a || b\<close> on a string and on a number that may be undefined.\<close>

definition or_string :: "js_string option \<Rightarrow> js_string \<Rightarrow> js_string" where
  "or_string a b = (case a of None \<Rightarrow> b | Some x \<Rightarrow> if x = [] then b else x)"

definition or_number :: "real option \<Rightarrow> real \<Rightarrow> real" where
  "or_number a b = (case a of None \<Rightarrow> b | Some x \<Rightarrow> if x = 0 then b else x)"

definition fetchPlaylistVideos :: "world \<Rightarrow> js_string \<Rightarrow> js_string \<Rightarrow> VideoInfo list option" where
  "fetchPlaylistVideos w playlist_id playlistName =
     (case playlist_dump w playlist_id of
        None \<Rightarrow> None
      | Some lines \<Rightarrow>
          Some (List.map_filter
                  (map_option (\<lambda>entry.
                     \<lparr>video_id = entry_id entry,
                      title = or_string (entry_title entry) (js ''Unknown''),
                      url = js ''https://youtu.be/'' @ entry_id entry,
                      video_duration = or_number (entry_duration entry) 0,
                      playlistId = playlist_id,
                      playlistTitle = playlistName\<rparr>))
                  lines))"

definition vttFiles :: "js_string \<Rightarrow> js_string list" where
  "vttFiles tempFile =
     [tempFile @ js ''.en.vtt'', tempFile @ js ''.en-orig.vtt'', tempFile @ js ''.en-US.vtt'']"

text \<open>
  The subtitle-file adapter: \<open>None\<close> when a command throws (the \<^verbatim>\<open>catch\<close>) and when
  none of the three files yields an entry; else the entries of the first file that
  does. The sweep of the temporary files touches nothing the model keeps.
\<close>

definition fetchCaptionsWithYtDlp :: "world \<Rightarrow> VideoInfo \<Rightarrow> CaptionEntry list option" where
  "fetchCaptionsWithYtDlp w v =
     (let tempFile = js ''./data/temp/'' @ video_id v in
      case subtitle_download w (video_id v) of
        None \<Rightarrow> None
      | Some fs \<Rightarrow> find (\<lambda>entries. entries \<noteq> []) (map (parseVttFile fs) (vttFiles tempFile)))"

text \<open>
  The resolver. Its result comes with the adapters it called, in the order of the calls.
\<close>

definition fetchCaptions :: "world \<Rightarrow> VideoInfo \<Rightarrow> adapter list \<times> CaptionEntry list option" where
  "fetchCaptions w v =
     (case fetchTranscript w (video_id v) of
        Returned (Some transcript) \<Rightarrow>
          if transcript \<noteq> []
          then ([DirectCaption],
                Some (map (\<lambda>entry. \<lparr>entry_text = t_text entry, offset = t_offset entry,
                                      duration = t_duration entry\<rparr>) transcript))
          else ([DirectCaption, SubtitleFile], fetchCaptionsWithYtDlp w v)
      | _ \<Rightarrow> ([DirectCaption, SubtitleFile], fetchCaptionsWithYtDlp w v))"

text \<open>
  The \<^verbatim>\<open>else\<close> branch of a task: \<^verbatim>\<open>find\<close> returns the first entry of the id, whose
  \<^verbatim>\<open>lastAttempt\<close> is then overwritten in place; without one, an entry is pushed.
\<close>

fun touch_first :: "js_string \<Rightarrow> js_string \<Rightarrow> FailedVideo list \<Rightarrow> FailedVideo list" where
  "touch_first vid t [] = []"
| "touch_first vid t (f # fs) =
     (if failed_id f = vid then f\<lparr>lastAttempt := t\<rparr> # fs else f # touch_first vid t fs)"

definition record_failure :: "js_string \<Rightarrow> js_string \<Rightarrow> FailedVideo list \<Rightarrow> FailedVideo list" where
  "record_failure vid t fs =
     (case find (\<lambda>f. failed_id f = vid) fs of
        Some existingFailure \<Rightarrow> touch_first vid t fs
      | None \<Rightarrow> fs @ [\<lparr>failed_id = vid, error = js ''No captions available'', lastAttempt = t\<rparr>])"

definition periodic_save :: "nat \<Rightarrow> world \<Rightarrow> run_state \<Rightarrow> run_state" where
  "periodic_save k w s = (if completed s mod k = 0 then saveProgress w s else s)"

text \<open>\<^verbatim>\<open>captions && captions.length > 0\<close>\<close>

definition found :: "'a list option \<Rightarrow> 'a list option" where
  "found c = (case c of None \<Rightarrow> None | Some cs \<Rightarrow> if cs \<noteq> [] then Some cs else None)"

definition has_captions :: "world \<Rightarrow> VideoInfo \<Rightarrow> bool" where
  "has_captions w v \<longleftrightarrow> found (snd (fetchCaptions w v)) \<noteq> None"

text \<open>
  A task of the grabber has one \<^verbatim>\<open>await\<close> after which it touches the store:
  \<^verbatim>\<open>await fetchCaptions(video)\<close>; a task that found captions has a second one,
  \<^verbatim>\<open>await saveCaptions(captionData)\<close>. \<open>after_fetch\<close> is the code that runs when the
  first returns (up to the call of \<^verbatim>\<open>saveCaptions\<close>, or to the end of the task when
  there are no captions), \<open>after_save\<close> the code that runs when the second returns.
\<close>

definition after_fetch :: "world \<Rightarrow> VideoInfo \<Rightarrow> run_state \<Rightarrow> run_state" where
  "after_fetch w v s =
     (let (calls, caps) = fetchCaptions w v;
          s1 = s\<lparr>completed := completed s + 1,
                 adapter_calls := adapter_calls s @ map (\<lambda>a. (a, video_id v)) calls\<rparr>
      in case found caps of
           Some cs \<Rightarrow>
             saveCaptions \<lparr>video = v, captions = cs, fetchedAt = clock w (ticks s1)\<rparr>
               (s1\<lparr>ticks := ticks s1 + 1\<rparr>)
         | None \<Rightarrow>
             periodic_save 50 w
               (s1\<lparr>progress := (progress s1)\<lparr>failedVideos :=
                       record_failure (video_id v) (clock w (ticks s1))
                         (failedVideos (progress s1))\<rparr>,
                    failed := failed s1 + 1,
                    ticks := ticks s1 + 1\<rparr>))"

definition after_save :: "world \<Rightarrow> VideoInfo \<Rightarrow> run_state \<Rightarrow> run_state" where
  "after_save w v s =
     periodic_save 50 w
       (s\<lparr>progress := (progress s)\<lparr>processedVideos :=
              processedVideos (progress s) @ [video_id v]\<rparr>,
          processed := processed s + 1\<rparr>)"

datatype grab_segment = AfterFetch VideoInfo | AfterSave VideoInfo

fun grab_step :: "world \<Rightarrow> grab_segment \<Rightarrow> run_state \<Rightarrow> run_state" where
  "grab_step w (AfterFetch v) s = after_fetch w v s"
| "grab_step w (AfterSave v) s = after_save w v s"

definition grab_task :: "world \<Rightarrow> VideoInfo \<Rightarrow> grab_segment list" where
  "grab_task w v = (if has_captions w v then [AfterFetch v, AfterSave v] else [AfterFetch v])"

definition all_videos :: "world \<Rightarrow> VideoInfo list" where
  "all_videos w =
     concat (map (\<lambda>(playlist_id, name).
                    case fetchPlaylistVideos w playlist_id name of None \<Rightarrow> [] | Some vs \<Rightarrow> vs)
                 PLAYLISTS)"

definition pending_videos :: "world \<Rightarrow> Progress \<Rightarrow> VideoInfo list" where
  "pending_videos w p = filter (\<lambda>v. video_id v \<notin> set (processedVideos p)) (all_videos w)"

text \<open>The store when \<^verbatim>\<open>Promise.all(tasks)\<close> has returned.\<close>

definition grab_all :: "world \<Rightarrow> VideoInfo list \<Rightarrow> run_state \<Rightarrow> run_state" where
  "grab_all w pendingVideos s =
     fold (grab_step w)
       (sched_trace CONCURRENCY_LIMIT_grab (map (grab_task w) pendingVideos) (scheduler w)) s"

text \<open>
  \<^verbatim>\<open>main\<close> of the grabber: \<open>Inl\<close> is the rejection of its promise. The write of
  \<^verbatim>\<open>.gitkeep\<close> and the console output are left out.
\<close>

definition main_grab :: "world \<Rightarrow> js_error + run_state" where
  "main_grab w =
     (case loadProgress (progress_file w) of
        Inl e \<Rightarrow> Inl e
      | Inr p \<Rightarrow>
          (let pendingVideos = pending_videos w p in
           if pendingVideos = [] then Inr (init_state p)
           else Inr (saveProgress w (grab_all w pendingVideos (init_state p)))))"

section \<open>The speech-to-text fallback (\<^verbatim>\<open>scripts/transcribe-fallback.ts\<close>)\<close>

definition CONCURRENCY_LIMIT_transcribe :: nat where
  "CONCURRENCY_LIMIT_transcribe = 5"

definition getVideoInfo :: "world \<Rightarrow> js_string \<Rightarrow> VideoInfo option" where
  "getVideoInfo w videoId =
     (case video_dump w videoId of
        None \<Rightarrow> None
      | Some data \<Rightarrow>
          Some \<lparr>video_id = videoId,
                title = or_string (json_title data) (js ''Unknown''),
                url = js ''https://youtu.be/'' @ videoId,
                video_duration = or_number (json_duration data) 0,
                playlistId = or_string (json_playlist_id data) (js ''unknown''),
                playlistTitle = or_string (json_playlist_title data) (js ''Zero Punctuation'')\<rparr>)"

definition downloadAudio :: "world \<Rightarrow> js_string \<Rightarrow> js_string option" where
  "downloadAudio w videoId =
     (if audio_download w videoId then Some (js ''./data/temp-audio/'' @ videoId @ js ''.wav'')
      else None)"

text \<open>\<open>None\<close>: the call of the transcription service throws.\<close>

definition transcribeWithGroq :: "world \<Rightarrow> js_string \<Rightarrow> js_string \<Rightarrow> CaptionEntry list option" where
  "transcribeWithGroq w audioPath videoTitle =
     (let prompt = js ''Video game review: '' @ videoTitle @
                   js ''. British accent, fast-paced commentary.'' in
      case groq_transcribe w audioPath prompt of
        None \<Rightarrow> None
      | Some None \<Rightarrow> Some []
      | Some (Some segments) \<Rightarrow>
          if segments = [] then Some []
          else Some (map (\<lambda>segment. \<lparr>entry_text = js_trim (seg_text segment),
                                         offset = seg_start segment,
                                         duration = seg_end segment - seg_start segment\<rparr>)
                         segments))"

text \<open>
  \<^verbatim>\<open>processVideo\<close>, with the store passed through: the result is what it returns and
  the store it leaves. The removal of the temporary audio touches nothing the model
  keeps.
\<close>

definition processVideo :: "world \<Rightarrow> js_string \<Rightarrow> run_state \<Rightarrow> bool \<times> run_state" where
  "processVideo w videoId s =
     (case getVideoInfo w videoId of
        None \<Rightarrow> (False, s)
      | Some videoInfo \<Rightarrow>
          (case downloadAudio w videoId of
             None \<Rightarrow> (False, s)
           | Some audioPath \<Rightarrow>
               (case transcribeWithGroq w audioPath (title videoInfo) of
                  None \<Rightarrow> (False, s)
                | Some caps \<Rightarrow>
                    if caps = [] then (False, s)
                    else
                      (let s1 = saveCaptions
                                  \<lparr>video = videoInfo, captions = caps,
                                   fetchedAt = clock w (ticks s)\<rparr>
                                  (s\<lparr>ticks := ticks s + 1\<rparr>);
                           s2 = s1\<lparr>progress := (progress s1)
                                  \<lparr>processedVideos := processedVideos (progress s1) @ [videoId],
                                   failedVideos := filter (\<lambda>f. failed_id f \<noteq> videoId)
                                                     (failedVideos (progress s1))\<rparr>\<rparr>
                       in (True, s2)))))"

text \<open>
  The segments of a task of this script. What the three collaborators return does not
  depend on the store, so \<open>speech_to_text\<close> gives it beforehand. A task that got captions
  runs \<open>persist\<close> (up to the call of \<^verbatim>\<open>saveCaptions\<close>), then \<open>mark_done\<close> (the update of
  the ledger behind \<^verbatim>\<open>await saveCaptions\<close>), then \<open>after_process\<close> (the code of \<^verbatim>\<open>main\<close>
  behind \<^verbatim>\<open>await processVideo\<close>); any other task runs \<open>after_process\<close> only.
\<close>

definition speech_to_text :: "world \<Rightarrow> js_string \<Rightarrow> (VideoInfo \<times> CaptionEntry list) option" where
  "speech_to_text w videoId =
     (case getVideoInfo w videoId of
        None \<Rightarrow> None
      | Some videoInfo \<Rightarrow>
          (case downloadAudio w videoId of
             None \<Rightarrow> None
           | Some audioPath \<Rightarrow>
               (case found (transcribeWithGroq w audioPath (title videoInfo)) of
                  None \<Rightarrow> None
                | Some caps \<Rightarrow> Some (videoInfo, caps))))"

definition persist :: "world \<Rightarrow> js_string \<Rightarrow> run_state \<Rightarrow> run_state" where
  "persist w videoId s =
     (case speech_to_text w videoId of
        None \<Rightarrow> s
      | Some (videoInfo, caps) \<Rightarrow>
          saveCaptions \<lparr>video = videoInfo, captions = caps, fetchedAt = clock w (ticks s)\<rparr>
            (s\<lparr>ticks := ticks s + 1\<rparr>))"

definition mark_done :: "js_string \<Rightarrow> run_state \<Rightarrow> run_state" where
  "mark_done videoId s =
     s\<lparr>progress := (progress s)
         \<lparr>processedVideos := processedVideos (progress s) @ [videoId],
          failedVideos := filter (\<lambda>f. failed_id f \<noteq> videoId) (failedVideos (progress s))\<rparr>\<rparr>"

definition after_process :: "world \<Rightarrow> js_string \<Rightarrow> run_state \<Rightarrow> run_state" where
  "after_process w videoId s =
     periodic_save 5 w
       (if speech_to_text w videoId \<noteq> None
        then s\<lparr>completed := completed s + 1, processed := processed s + 1\<rparr>
        else s\<lparr>completed := completed s + 1, failed := failed s + 1\<rparr>)"

datatype transcribe_segment = Persist js_string | MarkDone js_string | AfterProcess js_string

fun transcribe_step :: "world \<Rightarrow> transcribe_segment \<Rightarrow> run_state \<Rightarrow> run_state" where
  "transcribe_step w (Persist videoId) s = persist w videoId s"
| "transcribe_step w (MarkDone videoId) s = mark_done videoId s"
| "transcribe_step w (AfterProcess videoId) s = after_process w videoId s"

definition transcribe_task :: "world \<Rightarrow> js_string \<Rightarrow> transcribe_segment list" where
  "transcribe_task w videoId =
     (if speech_to_text w videoId \<noteq> None
      then [Persist videoId, MarkDone videoId, AfterProcess videoId]
      else [AfterProcess videoId])"

text \<open>The command line: \<^verbatim>\<open>limit\<close> is a number, \<open>None\<close> when it is \<^verbatim>\<open>NaN\<close>.\<close>

definition limit_of_args :: "js_string list \<Rightarrow> int option" where
  "limit_of_args args =
     (let limitIdx = js_indexOf args (js ''--limit'') in
      case js_nth args (limitIdx + 1) of
        None \<Rightarrow> Some 1
      | Some a \<Rightarrow> if limitIdx \<noteq> - 1 \<and> a \<noteq> [] then js_parseInt10 a else Some 1)"

definition to_process :: "world \<Rightarrow> Progress \<Rightarrow> FailedVideo list" where
  "to_process w p = js_slice_to (limit_of_args (drop 2 (argv w))) (failedVideos p)"

definition transcribe_all :: "world \<Rightarrow> FailedVideo list \<Rightarrow> run_state \<Rightarrow> run_state" where
  "transcribe_all w toProcess s =
     fold (transcribe_step w)
       (sched_trace CONCURRENCY_LIMIT_transcribe
          (map (\<lambda>failed. transcribe_task w (failed_id failed)) toProcess) (scheduler w)) s"

definition main_transcribe :: "world \<Rightarrow> js_error + run_state" where
  "main_transcribe w =
     (case loadProgress (progress_file w) of
        Inl e \<Rightarrow> Inl e
      | Inr p \<Rightarrow>
          if failedVideos p = [] then Inr (init_state p)
          else Inr (saveProgress w (transcribe_all w (to_process w p) (init_state p))))"

section \<open>The two commands\<close>

text \<open>
  The last line of each script is \<^verbatim>\<open>main().catch(console.error)\<close>. \<open>catch_console_error\<close>
  is the handler: a rejection is printed and the promise it returns is fulfilled.
  \<open>settle\<close> is the runtime's rule for the end of the process: status 0 unless a
  rejection is left unhandled. An exception while the module loads (\<^verbatim>\<open>new Groq()\<close>
  stands outside \<^verbatim>\<open>main\<close>) is caught by nothing. \<open>stderr_log\<close> holds what the top
  level prints; the \<^verbatim>\<open>console.error\<close> calls inside \<^verbatim>\<open>main\<close> are left out.
\<close>

record process_end =
  stderr_log :: "js_error list"
  exit_status :: nat

definition catch_console_error :: "js_error + 'a \<Rightarrow> js_error list \<times> (js_error + unit)" where
  "catch_console_error p = (case p of Inl e \<Rightarrow> ([e], Inr ()) | Inr x \<Rightarrow> ([], Inr ()))"

definition settle :: "js_error list \<times> (js_error + unit) \<Rightarrow> process_end" where
  "settle r =
     (case snd r of
        Inr u \<Rightarrow> \<lparr>stderr_log = fst r, exit_status = 0\<rparr>
      | Inl e \<Rightarrow> \<lparr>stderr_log = fst r @ [e], exit_status = 1\<rparr>)"

definition grab_captions_command :: "world \<Rightarrow> process_end" where
  "grab_captions_command w = settle (catch_console_error (main_grab w))"

definition transcribe_fallback_command :: "world \<Rightarrow> process_end" where
  "transcribe_fallback_command w =
     (case groq_client w of
        Some e \<Rightarrow> \<lparr>stderr_log = [e], exit_status = 1\<rparr>
      | None \<Rightarrow> settle (catch_console_error (main_transcribe w)))"

text \<open>
  The ledger file a run leaves behind: the last snapshot it wrote, or the file as it
  found it when it wrote none.
\<close>

definition ledger_after :: "world \<Rightarrow> run_state \<Rightarrow> Progress json_file" where
  "ledger_after w s =
     (if progress_writes s = [] then progress_file w else Holds (last (progress_writes s)))"

section \<open>Sample worlds\<close>

text \<open>
  Concrete inputs on which the properties below are evaluated. In \<open>quiet_world\<close> nothing
  is on disk and every collaborator fails; the other worlds change a few fields of it.
\<close>

definition test_clock :: "nat \<Rightarrow> js_string" where
  "test_clock k = js ''T'' @ [48 + k]"

definition quiet_world :: world where
  "quiet_world = \<lparr>progress_file = Missing, playlist_dump = (\<lambda>p. None),
     fetchTranscript = (\<lambda>i. Threw), subtitle_download = (\<lambda>i. None),
     video_dump = (\<lambda>i. None), audio_download = (\<lambda>i. False),
     groq_transcribe = (\<lambda>a p. None), groq_client = None, argv = [],
     clock = test_clock, scheduler = []\<rparr>"

definition test_video :: "js_string \<Rightarrow> VideoInfo" where
  "test_video i = \<lparr>video_id = i, title = js ''Unknown'', url = js ''https://youtu.be/'' @ i,
     video_duration = 0, playlistId = js ''unknown'', playlistTitle = js ''Zero Punctuation''\<rparr>"

definition test_json :: VideoJson where
  "test_json = \<lparr>json_title = None, json_duration = None, json_playlist_id = None,
     json_playlist_title = None\<rparr>"

definition heard_world :: world where
  "heard_world = quiet_world\<lparr>video_dump := (\<lambda>i. Some test_json), audio_download := (\<lambda>i. True),
     groq_transcribe := (\<lambda>a p. Some (Some [\<lparr>seg_start = 0, seg_end = 2, seg_text = js '' hi ''\<rparr>]))\<rparr>"

definition test_ledger :: Progress where
  "test_ledger = \<lparr>processedVideos = [], failedVideos =
     [\<lparr>failed_id = js ''a'', error = js ''No captions available'', lastAttempt = js ''T''\<rparr>,
      \<lparr>failed_id = js ''b'', error = js ''No captions available'', lastAttempt = js ''T''\<rparr>],
     lastRun = js ''T''\<rparr>"

definition sample_vtt :: js_string where
  "sample_vtt = js ''00:00:01.000 --> 00:00:02.500\<newline>Hello <c>world</c>\<newline>\<newline>00:00:03.000 --> 00:00:04.000\<newline>Second line''"

definition sample_entries :: "CaptionEntry list" where
  "sample_entries =
     [\<lparr>entry_text = js ''Hello world'', offset = 1000, duration = 1500\<rparr>,
      \<lparr>entry_text = js ''Second line'', offset = 3000, duration = 1000\<rparr>]"

text \<open>
  In \<open>caption_world\<close> the direct-caption adapter answers for the video \<open>a\<close> and the
  subtitle download leaves the sample file for the video \<open>b\<close>.
\<close>

definition caption_world :: world where
  "caption_world = quiet_world
     \<lparr>fetchTranscript := (\<lambda>i. if i = js ''a''
         then Returned (Some [\<lparr>t_text = js ''hi'', t_duration = 2, t_offset = 1, t_lang = None\<rparr>])
         else Threw),
      subtitle_download := (\<lambda>i. if i = js ''b''
         then Some (\<lambda>p. if p = js ''./data/temp/b.en.vtt'' then Some sample_vtt else None)
         else None)\<rparr>"

text \<open>
  In \<open>listed_world\<close> the first playlist lists the videos \<open>a\<close> and \<open>c\<close> (and one line that
  does not parse); \<open>listed_result\<close> is the store at the end of the grabber's run there.
  In \<open>retry_world\<close> the ledger file holds \<open>test_ledger\<close> and every collaborator fails.
\<close>

definition listed_video :: "js_string \<Rightarrow> VideoInfo" where
  "listed_video i = \<lparr>video_id = i, title = js ''Unknown'', url = js ''https://youtu.be/'' @ i,
     video_duration = 0, playlistId = js ''PLAbMhAYRuCUhawCEV2oXZGrienoKTN16X'',
     playlistTitle = js ''Zero Punctuation''\<rparr>"

definition listed_world :: world where
  "listed_world = caption_world
     \<lparr>playlist_dump := (\<lambda>p. if p = js ''PLAbMhAYRuCUhawCEV2oXZGrienoKTN16X''
        then Some [Some \<lparr>entry_id = js ''a'', entry_title = None, entry_duration = None\<rparr>, None,
                   Some \<lparr>entry_id = js ''c'', entry_title = Some [], entry_duration = Some 0\<rparr>]
        else None)\<rparr>"

definition fresh_ledger :: Progress where
  "fresh_ledger = \<lparr>processedVideos = [], failedVideos = [], lastRun = []\<rparr>"

definition listed_result :: run_state where
  "listed_result =
     \<lparr>progress = \<lparr>processedVideos = [js ''a''],
                   failedVideos = [\<lparr>failed_id = js ''c'', error = js ''No captions available'',
                                    lastAttempt = test_clock 1\<rparr>],
                   lastRun = test_clock 2\<rparr>,
      completed = 2, processed = 1, failed = 1, ticks = 3,
      caption_files = [\<lparr>video = listed_video (js ''a''),
                         captions = [\<lparr>entry_text = js ''hi'', offset = 1, duration = 2\<rparr>],
                         fetchedAt = test_clock 0\<rparr>],
      progress_writes = [\<lparr>processedVideos = [js ''a''],
                   failedVideos = [\<lparr>failed_id = js ''c'', error = js ''No captions available'',
                                    lastAttempt = test_clock 1\<rparr>],
                   lastRun = test_clock 2\<rparr>],
      adapter_calls = [(DirectCaption, js ''a''), (DirectCaption, js ''c''),
                       (SubtitleFile, js ''c'')]\<rparr>"

definition retry_world :: world where
  "retry_world = quiet_world\<lparr>progress_file := Holds test_ledger\<rparr>"

text \<open>\<open>retry_result\<close> is the store at the end of the speech-to-text script's run in \<open>retry_world\<close>.\<close>

definition retry_result :: run_state where
  "retry_result =
     \<lparr>progress = test_ledger\<lparr>lastRun := test_clock 0\<rparr>,
      completed = 1, processed = 0, failed = 1, ticks = 1,
      caption_files = [], progress_writes = [test_ledger\<lparr>lastRun := test_clock 0\<rparr>],
      adapter_calls = []\<rparr>"

text \<open>
  \<open>second_world\<close> is \<open>listed_world\<close> with the ledger file the first run left, and
  \<open>second_result\<close> the store at the end of the grabber's run there. In \<open>single_world\<close> the
  playlist lists the video \<open>a\<close> only; \<open>single_result\<close> is the end of the run there.
\<close>

definition second_world :: world where
  "second_world = listed_world\<lparr>progress_file := Holds (progress listed_result)\<rparr>"

definition second_result :: run_state where
  "second_result =
     \<lparr>progress = \<lparr>processedVideos = [js ''a''],
                   failedVideos = [\<lparr>failed_id = js ''c'', error = js ''No captions available'',
                                    lastAttempt = test_clock 0\<rparr>],
                   lastRun = test_clock 1\<rparr>,
      completed = 1, processed = 0, failed = 1, ticks = 2,
      caption_files = [],
      progress_writes = [\<lparr>processedVideos = [js ''a''],
                   failedVideos = [\<lparr>failed_id = js ''c'', error = js ''No captions available'',
                                    lastAttempt = test_clock 0\<rparr>],
                   lastRun = test_clock 1\<rparr>],
      adapter_calls = [(DirectCaption, js ''c''), (SubtitleFile, js ''c'')]\<rparr>"

definition single_world :: world where
  "single_world = listed_world
     \<lparr>playlist_dump := (\<lambda>p. if p = js ''PLAbMhAYRuCUhawCEV2oXZGrienoKTN16X''
        then Some [Some \<lparr>entry_id = js ''a'', entry_title = None, entry_duration = None\<rparr>]
        else None)\<rparr>"

definition single_result :: run_state where
  "single_result =
     \<lparr>progress = \<lparr>processedVideos = [js ''a''], failedVideos = [], lastRun = test_clock 1\<rparr>,
      completed = 1, processed = 1, failed = 0, ticks = 2,
      caption_files = [\<lparr>video = listed_video (js ''a''),
                         captions = [\<lparr>entry_text = js ''hi'', offset = 1, duration = 2\<rparr>],
                         fetchedAt = test_clock 0\<rparr>],
      progress_writes = [\<lparr>processedVideos = [js ''a''], failedVideos = [],
                          lastRun = test_clock 1\<rparr>],
      adapter_calls = [(DirectCaption, js ''a'')]\<rparr>"









section \<open>Properties of the ledger and of the commands\<close>

lemma main_grab_load_error:
  "progress_file w = Unparsable \<Longrightarrow> main_grab w = Inl SyntaxError"
  by (simp add: main_grab_def loadProgress_def)

lemma main_transcribe_load_error:
  "progress_file w = Unparsable \<Longrightarrow> main_transcribe w = Inl SyntaxError"
  by (simp add: main_transcribe_def loadProgress_def)

text \<open>
  C2, as the code has it. \<^verbatim>\<open>loadProgress\<close> returns the fresh empty ledger when the file
  is missing and the ledger of the file when \<^verbatim>\<open>file.json()\<close> accepts it. A file that
  \<^verbatim>\<open>file.json()\<close> rejects is not taken for a missing one: the rejection is the result of
  \<^verbatim>\<open>loadProgress\<close> and of \<^verbatim>\<open>main\<close>, in both scripts.
\<close>

theorem loadProgress_outcomes:
  "loadProgress Missing = Inr \<lparr>processedVideos = [], failedVideos = [], lastRun = []\<rparr> \<and>
   loadProgress (Holds p) = Inr p \<and>
   loadProgress Unparsable = Inl SyntaxError \<and>
   (progress_file w = Unparsable \<longrightarrow>
      main_grab w = Inl SyntaxError \<and> main_transcribe w = Inl SyntaxError)"
  by (simp add: loadProgress_def main_grab_load_error main_transcribe_load_error)

theorem loadProgress_outcomes_witness:
  "progress_file (quiet_world\<lparr>progress_file := Unparsable\<rparr>) = Unparsable \<and>
   loadProgress (Holds test_ledger) = Inr test_ledger \<and>
   main_grab (quiet_world\<lparr>progress_file := Unparsable\<rparr>) = Inl SyntaxError \<and>
   main_transcribe (quiet_world\<lparr>progress_file := Unparsable\<rparr>) = Inl SyntaxError"
  using loadProgress_outcomes [of test_ledger "quiet_world\<lparr>progress_file := Unparsable\<rparr>"]
  by simp

text \<open>
  C2 as stated fails: with a ledger file that does not parse, \<^verbatim>\<open>loadProgress\<close> does not
  return the fresh empty ledger, and \<^verbatim>\<open>main\<close> of the grabber is rejected.
\<close>

theorem loadProgress_corrupt_counterexample:
  "loadProgress Unparsable \<noteq> Inr \<lparr>processedVideos = [], failedVideos = [], lastRun = []\<rparr> \<and>
   main_grab (quiet_world\<lparr>progress_file := Unparsable\<rparr>) = Inl SyntaxError"
  by (simp add: loadProgress_def main_grab_def)

lemma exit_settle_catch: "exit_status (settle (catch_console_error r)) = 0"
  by (cases r) (simp_all add: settle_def catch_console_error_def)

lemma stderr_settle_catch:
  "stderr_log (settle (catch_console_error r)) = (case r of Inl e \<Rightarrow> [e] | Inr x \<Rightarrow> [])"
  by (cases r) (simp_all add: settle_def catch_console_error_def)

text \<open>
  C8, as the code has it. The grabber always ends with status 0, and so does the
  speech-to-text command once its module has loaded: whatever \<^verbatim>\<open>main\<close> did, and also
  when \<^verbatim>\<open>main\<close> is rejected. A rejection of \<^verbatim>\<open>main\<close> is printed to standard error by
  the \<^verbatim>\<open>catch\<close> handler and is thereby handled. Only an exception thrown while the
  module loads, outside \<^verbatim>\<open>main\<close>, ends the process with a status other than 0.
\<close>

theorem commands_exit_status:
  "exit_status (grab_captions_command w) = 0 \<and>
   stderr_log (grab_captions_command w) = (case main_grab w of Inl e \<Rightarrow> [e] | Inr s \<Rightarrow> []) \<and>
   (groq_client w = None \<longrightarrow>
      exit_status (transcribe_fallback_command w) = 0 \<and>
      stderr_log (transcribe_fallback_command w) =
        (case main_transcribe w of Inl e \<Rightarrow> [e] | Inr s \<Rightarrow> [])) \<and>
   (\<forall>e. groq_client w = Some e \<longrightarrow>
      exit_status (transcribe_fallback_command w) = 1 \<and>
      stderr_log (transcribe_fallback_command w) = [e])"
  by (simp add: grab_captions_command_def transcribe_fallback_command_def
        exit_settle_catch stderr_settle_catch)

theorem commands_exit_status_witness:
  "groq_client quiet_world = None \<and>
   exit_status (grab_captions_command quiet_world) = 0 \<and>
   exit_status (transcribe_fallback_command quiet_world) = 0 \<and>
   groq_client (quiet_world\<lparr>groq_client := Some GroqError\<rparr>) = Some GroqError \<and>
   exit_status (transcribe_fallback_command (quiet_world\<lparr>groq_client := Some GroqError\<rparr>)) = 1"
proof -
  have "groq_client quiet_world = None" by (simp add: quiet_world_def)
  then show ?thesis
    using commands_exit_status [of quiet_world]
      commands_exit_status [of "quiet_world\<lparr>groq_client := Some GroqError\<rparr>"]
    by simp
qed

text \<open>
  C8 as stated fails: a ledger file that does not parse rejects \<^verbatim>\<open>main\<close>, the top-level
  error is printed, and the exit status of both commands is 0.
\<close>

theorem top_level_error_exit_counterexample:
  "main_grab (quiet_world\<lparr>progress_file := Unparsable\<rparr>) = Inl SyntaxError \<and>
   stderr_log (grab_captions_command (quiet_world\<lparr>progress_file := Unparsable\<rparr>)) = [SyntaxError] \<and>
   exit_status (grab_captions_command (quiet_world\<lparr>progress_file := Unparsable\<rparr>)) = 0 \<and>
   main_transcribe (quiet_world\<lparr>progress_file := Unparsable\<rparr>) = Inl SyntaxError \<and>
   stderr_log (transcribe_fallback_command (quiet_world\<lparr>progress_file := Unparsable\<rparr>)) = [SyntaxError] \<and>
   exit_status (transcribe_fallback_command (quiet_world\<lparr>progress_file := Unparsable\<rparr>)) = 0"
  by (simp add: grab_captions_command_def transcribe_fallback_command_def exit_settle_catch
        stderr_settle_catch main_grab_load_error main_transcribe_load_error quiet_world_def)

section \<open>Properties of the scheduler\<close>

text \<open>
  Whatever the scheduler picks, every segment of every task runs exactly once.
\<close>

lemma mset_concat_update:
  assumes "i < length tasks" "tasks ! i = e # es"
  shows "mset (concat (tasks[i := es])) + {#e#} = mset (concat tasks)"
proof -
  have t: "tasks = take i tasks @ (e # es) # drop (Suc i) tasks"
    using assms by (metis id_take_nth_drop)
  have u: "tasks[i := es] = take i tasks @ es # drop (Suc i) tasks"
    using assms by (simp add: upd_conv_take_nth_drop)
  have "mset (concat (take i tasks @ es # drop (Suc i) tasks)) + {#e#} =
        mset (concat (take i tasks @ (e # es) # drop (Suc i) tasks))"
    by simp
  with t u show ?thesis by metis
qed

lemma mset_sched_trace: "mset (sched_trace cap tasks sch) = mset (concat tasks)"
proof (induction sch arbitrary: tasks)
  case Nil
  show ?case by simp
next
  case (Cons i sch)
  show ?case
  proof (cases "i < length tasks \<and> length (filter (\<lambda>t. t \<noteq> []) (take i tasks)) < cap")
    case False
    then show ?thesis using Cons.IH [of tasks] by auto
  next
    case True
    show ?thesis
    proof (cases "tasks ! i")
      case Nil
      then show ?thesis using True Cons.IH [of tasks] by simp
    next
      case (Cons e es)
      have "mset (sched_trace cap tasks (i # sch)) = mset (concat (tasks[i := es])) + {#e#}"
        using True Cons Cons.IH [of "tasks[i := es]"] by simp
      then show ?thesis using mset_concat_update [of i tasks e es] True Cons by simp
    qed
  qed
qed

lemma set_sched_trace: "set (sched_trace cap tasks sch) = set (concat tasks)"
  by (metis mset_sched_trace set_mset_mset)

section \<open>Properties of the segments\<close>

text \<open>What one segment does to each part of the store.\<close>

lemma saveProgress_fields [simp]:
  "completed (saveProgress w s) = completed s"
  "processed (saveProgress w s) = processed s"
  "failed (saveProgress w s) = failed s"
  "ticks (saveProgress w s) = ticks s + 1"
  "caption_files (saveProgress w s) = caption_files s"
  "progress_writes (saveProgress w s) = progress_writes s @ [progress (saveProgress w s)]"
  "processedVideos (progress (saveProgress w s)) = processedVideos (progress s)"
  "failedVideos (progress (saveProgress w s)) = failedVideos (progress s)"
  "lastRun (progress (saveProgress w s)) = clock w (ticks s)"
  by (simp_all add: saveProgress_def Let_def)

lemma periodic_save_fields [simp]:
  "completed (periodic_save k w s) = completed s"
  "processed (periodic_save k w s) = processed s"
  "failed (periodic_save k w s) = failed s"
  "caption_files (periodic_save k w s) = caption_files s"
  "processedVideos (progress (periodic_save k w s)) = processedVideos (progress s)"
  "failedVideos (progress (periodic_save k w s)) = failedVideos (progress s)"
  by (simp_all add: periodic_save_def)

lemma progress_writes_periodic_save:
  "progress_writes (periodic_save k w s) =
     (if completed s mod k = 0 then progress_writes s @ [progress (saveProgress w s)]
      else progress_writes s)"
  by (simp add: periodic_save_def)

lemma has_captions_found:
  "has_captions w v \<longleftrightarrow> (\<exists>cs. found (snd (fetchCaptions w v)) = Some cs)"
  by (simp add: has_captions_def)

lemma after_fetch_found:
  "found (snd (fetchCaptions w v)) = Some cs \<Longrightarrow>
   after_fetch w v s =
     s\<lparr>completed := completed s + 1,
       adapter_calls := adapter_calls s @ map (\<lambda>a. (a, video_id v)) (fst (fetchCaptions w v)),
       ticks := ticks s + 1,
       caption_files := caption_files s @
         [\<lparr>video = v, captions = cs, fetchedAt = clock w (ticks s)\<rparr>]\<rparr>"
  by (cases "fetchCaptions w v") (simp add: after_fetch_def saveCaptions_def Let_def)

lemma after_fetch_none:
  "found (snd (fetchCaptions w v)) = None \<Longrightarrow>
   after_fetch w v s =
     periodic_save 50 w
       (s\<lparr>completed := completed s + 1,
          adapter_calls := adapter_calls s @ map (\<lambda>a. (a, video_id v)) (fst (fetchCaptions w v)),
          progress := (progress s)\<lparr>failedVideos :=
             record_failure (video_id v) (clock w (ticks s)) (failedVideos (progress s))\<rparr>,
          failed := failed s + 1,
          ticks := ticks s + 1\<rparr>)"
  by (cases "fetchCaptions w v") (simp add: after_fetch_def Let_def)

lemma after_fetch_cases:
  obtains (found) cs where "found (snd (fetchCaptions w v)) = Some cs" "has_captions w v"
  | (none) "found (snd (fetchCaptions w v)) = None" "\<not> has_captions w v"
  by (cases "found (snd (fetchCaptions w v))") (auto simp: has_captions_def)

lemma completed_after_fetch [simp]: "completed (after_fetch w v s) = completed s + 1"
  by (cases w v rule: after_fetch_cases) (simp_all add: after_fetch_found after_fetch_none)

lemma completed_after_save [simp]: "completed (after_save w v s) = completed s"
  by (simp add: after_save_def)

lemma processedVideos_after_fetch [simp]:
  "processedVideos (progress (after_fetch w v s)) = processedVideos (progress s)"
  by (cases w v rule: after_fetch_cases) (simp_all add: after_fetch_found after_fetch_none)

lemma processedVideos_after_save [simp]:
  "processedVideos (progress (after_save w v s)) = processedVideos (progress s) @ [video_id v]"
  by (simp add: after_save_def)

lemma failedVideos_after_fetch:
  "failedVideos (progress (after_fetch w v s)) =
     (if has_captions w v then failedVideos (progress s)
      else record_failure (video_id v) (clock w (ticks s)) (failedVideos (progress s)))"
  by (cases w v rule: after_fetch_cases) (simp_all add: after_fetch_found after_fetch_none)

lemma failedVideos_after_save [simp]:
  "failedVideos (progress (after_save w v s)) = failedVideos (progress s)"
  by (simp add: after_save_def)

lemma caption_files_after_fetch:
  "caption_files (after_fetch w v s) =
     (case found (snd (fetchCaptions w v)) of
        Some cs \<Rightarrow> caption_files s @ [\<lparr>video = v, captions = cs, fetchedAt = clock w (ticks s)\<rparr>]
      | None \<Rightarrow> caption_files s)"
  by (cases w v rule: after_fetch_cases) (simp_all add: after_fetch_found after_fetch_none)

lemma caption_files_after_save [simp]: "caption_files (after_save w v s) = caption_files s"
  by (simp add: after_save_def)

section \<open>Properties of the resolver (\<^verbatim>\<open>fetchCaptions\<close>)\<close>

lemma vtt_sample_parse: "parseVttContent sample_vtt = sample_entries"
  by (simp add: sample_vtt_def sample_entries_def js_def match_at_def match_clock_def
        take_digits_def expect_lit_def is_js_digit_def is_js_space_def arrow_def
        parseVttContent_def parseVttBlock_def List.map_filter_def js_trim_def js_slice_def
        parseInt_def digits_value_def Let_def)

lemma adapter_calls_saveProgress [simp]: "adapter_calls (saveProgress w s) = adapter_calls s"
  by (simp add: saveProgress_def Let_def)

lemma adapter_calls_periodic_save [simp]: "adapter_calls (periodic_save k w s) = adapter_calls s"
  by (simp add: periodic_save_def)

lemma fetchCaptions_calls:
  "fst (fetchCaptions w v) =
     (if fetchTranscript w (video_id v) \<in> {Threw, Returned None, Returned (Some [])}
      then [DirectCaption, SubtitleFile] else [DirectCaption])"
  by (auto simp: fetchCaptions_def split: transcript_outcome.splits option.splits)

lemma adapter_calls_after_fetch:
  "adapter_calls (after_fetch w v s) =
     adapter_calls s @ map (\<lambda>a. (a, video_id v)) (fst (fetchCaptions w v))"
  by (simp add: after_fetch_def saveCaptions_def Let_def split: prod.splits option.splits)

lemma adapter_calls_after_save [simp]: "adapter_calls (after_save w v s) = adapter_calls s"
  by (simp add: after_save_def)

lemma no_speech_grab_step:
  "SpeechToText \<notin> fst ` set (adapter_calls s) \<Longrightarrow>
   SpeechToText \<notin> fst ` set (adapter_calls (grab_step w e s))"
  by (cases e) (auto simp: adapter_calls_after_fetch fetchCaptions_calls)

lemma no_speech_fold:
  "SpeechToText \<notin> fst ` set (adapter_calls s) \<Longrightarrow>
   SpeechToText \<notin> fst ` set (adapter_calls (fold (grab_step w) tr s))"
  by (induction tr arbitrary: s) (simp_all add: no_speech_grab_step)

lemma main_grab_Inr:
  "main_grab w = Inr s \<Longrightarrow>
   \<exists>p. loadProgress (progress_file w) = Inr p \<and>
       s = (if pending_videos w p = [] then init_state p
            else saveProgress w (grab_all w (pending_videos w p) (init_state p)))"
  by (auto simp: main_grab_def Let_def split: sum.splits if_splits)

lemma no_speech_main_grab:
  assumes "main_grab w = Inr s"
  shows "SpeechToText \<notin> fst ` set (adapter_calls s)"
proof -
  have i: "SpeechToText \<notin> fst ` set (adapter_calls (init_state p))" for p
    by (simp add: init_state_def)
  obtain p where s: "s = (if pending_videos w p = [] then init_state p
            else saveProgress w (grab_all w (pending_videos w p) (init_state p)))"
    using main_grab_Inr [OF assms] by blast
  show ?thesis
  proof (cases "pending_videos w p = []")
    case True
    then show ?thesis using s i by simp
  next
    case False
    then have "adapter_calls s = adapter_calls (grab_all w (pending_videos w p) (init_state p))"
      using s by simp
    then show ?thesis unfolding grab_all_def using no_speech_fold [OF i] by simp
  qed
qed

lemma fetchCaptions_direct:
  "fetchTranscript w (video_id v) = Returned (Some transcript) \<Longrightarrow> transcript \<noteq> [] \<Longrightarrow>
   fetchCaptions w v =
     ([DirectCaption],
      Some (map (\<lambda>entry. \<lparr>entry_text = t_text entry, offset = t_offset entry,
                            duration = t_duration entry\<rparr>) transcript))"
  by (simp add: fetchCaptions_def)

lemma fetchCaptions_fallback:
  "fetchTranscript w (video_id v) \<in> {Threw, Returned None, Returned (Some [])} \<Longrightarrow>
   fetchCaptions w v = ([DirectCaption, SubtitleFile], fetchCaptionsWithYtDlp w v)"
  by (auto simp: fetchCaptions_def)

lemma find_nonempty: "find (\<lambda>entries. entries \<noteq> []) xs \<noteq> Some []"
  by (induction xs) auto

lemma find_all_empty: "\<forall>x \<in> set xs. x = [] \<Longrightarrow> find (\<lambda>entries. entries \<noteq> []) xs = None"
  by (induction xs) auto

lemma fetchCaptionsWithYtDlp_nonempty: "fetchCaptionsWithYtDlp w v \<noteq> Some []"
  by (simp add: fetchCaptionsWithYtDlp_def find_nonempty split: option.splits)

lemma fetchCaptionsWithYtDlp_no_entries:
  "subtitle_download w (video_id v) = Some fs \<Longrightarrow>
   \<forall>path \<in> set (vttFiles (js ''./data/temp/'' @ video_id v)). parseVttFile fs path = [] \<Longrightarrow>
   fetchCaptionsWithYtDlp w v = None"
  by (simp add: fetchCaptionsWithYtDlp_def find_all_empty)

text \<open>
  C1. The resolver calls the direct-caption adapter first. When that adapter returns a
  non-empty list, the resolver returns its entries (text, offset and duration of each)
  and the subtitle-file adapter is not called. The subtitle-file adapter is called only
  when the direct-caption adapter threw or returned nothing, and the resolver then
  returns what it returns: never an empty list, and absent when a command fails or none
  of the subtitle files yields an entry. No adapter is called twice in one call of the
  resolver, and the speech-to-text adapter is called neither by the resolver nor
  anywhere in a run of the grabber.
\<close>

theorem fetchCaptions_order:
  "(\<forall>transcript. fetchTranscript w (video_id v) = Returned (Some transcript) \<and> transcript \<noteq> [] \<longrightarrow>
      fetchCaptions w v =
        ([DirectCaption],
         Some (map (\<lambda>entry. \<lparr>entry_text = t_text entry, offset = t_offset entry,
                               duration = t_duration entry\<rparr>) transcript))) \<and>
   (fetchTranscript w (video_id v) \<in> {Threw, Returned None, Returned (Some [])} \<longrightarrow>
      fetchCaptions w v = ([DirectCaption, SubtitleFile], fetchCaptionsWithYtDlp w v)) \<and>
   (SubtitleFile \<in> set (fst (fetchCaptions w v)) \<longrightarrow>
      fetchTranscript w (video_id v) \<in> {Threw, Returned None, Returned (Some [])}) \<and>
   fetchCaptionsWithYtDlp w v \<noteq> Some [] \<and>
   (subtitle_download w (video_id v) = None \<longrightarrow> fetchCaptionsWithYtDlp w v = None) \<and>
   (\<forall>fs. subtitle_download w (video_id v) = Some fs \<and>
      (\<forall>path \<in> set (vttFiles (js ''./data/temp/'' @ video_id v)). parseVttFile fs path = []) \<longrightarrow>
      fetchCaptionsWithYtDlp w v = None) \<and>
   hd (fst (fetchCaptions w v)) = DirectCaption \<and>
   SpeechToText \<notin> set (fst (fetchCaptions w v)) \<and>
   distinct (fst (fetchCaptions w v)) \<and>
   (\<forall>s. main_grab w = Inr s \<longrightarrow> SpeechToText \<notin> fst ` set (adapter_calls s))"
proof (intro conjI impI allI)
  fix transcript
  assume "fetchTranscript w (video_id v) = Returned (Some transcript) \<and> transcript \<noteq> []"
  then show "fetchCaptions w v =
        ([DirectCaption],
         Some (map (\<lambda>entry. \<lparr>entry_text = t_text entry, offset = t_offset entry,
                               duration = t_duration entry\<rparr>) transcript))"
    by (simp add: fetchCaptions_direct)
next
  assume "fetchTranscript w (video_id v) \<in> {Threw, Returned None, Returned (Some [])}"
  then show "fetchCaptions w v = ([DirectCaption, SubtitleFile], fetchCaptionsWithYtDlp w v)"
    by (rule fetchCaptions_fallback)
next
  assume "SubtitleFile \<in> set (fst (fetchCaptions w v))"
  then show "fetchTranscript w (video_id v) \<in> {Threw, Returned None, Returned (Some [])}"
    by (simp add: fetchCaptions_calls split: if_splits)
next
  show "fetchCaptionsWithYtDlp w v \<noteq> Some []" by (rule fetchCaptionsWithYtDlp_nonempty)
next
  assume "subtitle_download w (video_id v) = None"
  then show "fetchCaptionsWithYtDlp w v = None" by (simp add: fetchCaptionsWithYtDlp_def)
next
  fix fs
  assume "subtitle_download w (video_id v) = Some fs \<and>
      (\<forall>path \<in> set (vttFiles (js ''./data/temp/'' @ video_id v)). parseVttFile fs path = [])"
  then show "fetchCaptionsWithYtDlp w v = None"
    using fetchCaptionsWithYtDlp_no_entries by blast
next
  show "hd (fst (fetchCaptions w v)) = DirectCaption" by (simp add: fetchCaptions_calls)
  show "SpeechToText \<notin> set (fst (fetchCaptions w v))" by (simp add: fetchCaptions_calls)
  show "distinct (fst (fetchCaptions w v))" by (simp add: fetchCaptions_calls)
next
  fix s
  assume "main_grab w = Inr s"
  then show "SpeechToText \<notin> fst ` set (adapter_calls s)" by (rule no_speech_main_grab)
qed

theorem fetchCaptions_order_witness:
  "fetchTranscript caption_world (video_id (test_video (js ''a''))) =
     Returned (Some [\<lparr>t_text = js ''hi'', t_duration = 2, t_offset = 1, t_lang = None\<rparr>]) \<and>
   fetchCaptions caption_world (test_video (js ''a'')) =
     ([DirectCaption], Some [\<lparr>entry_text = js ''hi'', offset = 1, duration = 2\<rparr>]) \<and>
   fetchTranscript caption_world (video_id (test_video (js ''b''))) = Threw \<and>
   fetchCaptions caption_world (test_video (js ''b'')) =
     ([DirectCaption, SubtitleFile], Some sample_entries) \<and>
   subtitle_download caption_world (video_id (test_video (js ''c''))) = None \<and>
   fetchCaptions caption_world (test_video (js ''c'')) = ([DirectCaption, SubtitleFile], None)"
proof -
  have a: "fetchTranscript caption_world (video_id (test_video (js ''a''))) =
     Returned (Some [\<lparr>t_text = js ''hi'', t_duration = 2, t_offset = 1, t_lang = None\<rparr>])"
    by (simp add: caption_world_def quiet_world_def test_video_def)
  have b: "fetchTranscript caption_world (video_id (test_video (js ''b''))) = Threw"
    by (simp add: caption_world_def quiet_world_def test_video_def js_def)
  have c: "fetchTranscript caption_world (video_id (test_video (js ''c''))) = Threw"
    by (simp add: caption_world_def quiet_world_def test_video_def js_def)
  have sc: "subtitle_download caption_world (video_id (test_video (js ''c''))) = None"
    by (simp add: caption_world_def quiet_world_def test_video_def js_def)
  have sb: "fetchCaptionsWithYtDlp caption_world (test_video (js ''b'')) = Some sample_entries"
  proof -
    have p: "js ''./data/temp/'' @ js ''b'' @ js ''.en.vtt'' = js ''./data/temp/b.en.vtt''"
      by (simp add: js_def)
    have e: "sample_entries \<noteq> []" by (simp add: sample_entries_def)
    have s: "subtitle_download caption_world (js ''b'') =
      Some (\<lambda>p. if p = js ''./data/temp/b.en.vtt'' then Some sample_vtt else None)"
      by (simp add: caption_world_def quiet_world_def)
    show ?thesis
      by (simp add: fetchCaptionsWithYtDlp_def test_video_def s vttFiles_def parseVttFile_def
            p vtt_sample_parse e)
  qed
  show ?thesis
    using a b c sc sb
      fetchCaptions_order [of caption_world "test_video (js ''a'')"]
      fetchCaptions_order [of caption_world "test_video (js ''b'')"]
      fetchCaptions_order [of caption_world "test_video (js ''c'')"]
    by simp
qed

section \<open>Snapshots of the ledger\<close>

lemma progress_writes_after_save:
  "progress_writes (after_save w v s) =
     (if completed s mod 50 = 0 then progress_writes s @ [progress (after_save w v s)]
      else progress_writes s)"
  by (simp add: after_save_def progress_writes_periodic_save periodic_save_def)

lemma progress_writes_after_fetch:
  "progress_writes (after_fetch w v s) =
     (if \<not> has_captions w v \<and> (completed s + 1) mod 50 = 0
      then progress_writes s @ [progress (after_fetch w v s)]
      else progress_writes s)"
  by (cases w v rule: after_fetch_cases)
     (simp_all add: after_fetch_found after_fetch_none progress_writes_periodic_save
        periodic_save_def)

lemma completed_fold_grab:
  "completed (fold (grab_step w) tr s) =
     completed s + length (filter (\<lambda>e. case e of AfterFetch v \<Rightarrow> True | AfterSave v \<Rightarrow> False) tr)"
proof (induction tr arbitrary: s)
  case Nil
  show ?case by simp
next
  case (Cons e tr)
  show ?case by (cases e) (simp_all add: Cons.IH)
qed

lemma length_filter_sched_trace:
  "length (filter P (sched_trace cap tasks sch)) = length (filter P (concat tasks))"
proof -
  have "mset (filter P (sched_trace cap tasks sch)) = mset (filter P (concat tasks))"
    by (simp only: mset_filter mset_sched_trace)
  then show ?thesis by (metis size_mset)
qed

lemma count_fetch_tasks:
  "length (filter (\<lambda>e. case e of AfterFetch v \<Rightarrow> True | AfterSave v \<Rightarrow> False)
     (concat (map (grab_task w) vs))) = length vs"
  by (induction vs) (simp_all add: grab_task_def)

lemma completed_grab_all:
  "completed (grab_all w pendingVideos s) = completed s + length pendingVideos"
  by (simp add: grab_all_def completed_fold_grab length_filter_sched_trace count_fetch_tasks)

lemma div_step:
  "0 < k \<Longrightarrow> Suc c div k = c div k + (if Suc c mod k = 0 then 1 else 0)"
  by (simp add: div_Suc mod_Suc)

lemma grab_task_sequential:
  "completed (fold (grab_step w) (grab_task w v) s) = completed s + 1 \<and>
   length (progress_writes (fold (grab_step w) (grab_task w v) s)) =
     length (progress_writes s) + (if Suc (completed s) mod 50 = 0 then 1 else 0)"
  by (simp add: grab_task_def progress_writes_after_save progress_writes_after_fetch)

lemma writes_sequential:
  "length (progress_writes s) = completed s div 50 \<Longrightarrow>
   length (progress_writes (fold (grab_step w) (concat (map (grab_task w) vs)) s)) =
     completed (fold (grab_step w) (concat (map (grab_task w) vs)) s) div 50"
proof (induction vs arbitrary: s)
  case Nil
  then show ?case by simp
next
  case (Cons v vs)
  let ?s = "fold (grab_step w) (grab_task w v) s"
  have "length (progress_writes ?s) = completed ?s div 50"
    using grab_task_sequential [of w v s] Cons.prems div_step [of 50 "completed s"] by simp
  from Cons.IH [OF this] show ?case by simp
qed

lemma grab_all_sequential:
  "scheduler w = [] \<Longrightarrow>
   length (progress_writes (grab_all w pendingVideos (init_state p))) = length pendingVideos div 50"
  using writes_sequential [of "init_state p" w pendingVideos]
        completed_grab_all [of w pendingVideos "init_state p"]
  by (simp add: grab_all_def init_state_def)

lemma transcribe_step_writes:
  "length (progress_writes s) = completed s div 5 \<Longrightarrow>
   length (progress_writes (transcribe_step w e s)) = completed (transcribe_step w e s) div 5"
  by (cases e)
     (auto simp: persist_def saveCaptions_def mark_done_def after_process_def
        progress_writes_periodic_save div_step split: option.splits)

lemma transcribe_fold_writes:
  "length (progress_writes s) = completed s div 5 \<Longrightarrow>
   length (progress_writes (fold (transcribe_step w) tr s)) =
     completed (fold (transcribe_step w) tr s) div 5"
  by (induction tr arbitrary: s) (simp_all add: transcribe_step_writes)

lemma completed_fold_transcribe:
  "completed (fold (transcribe_step w) tr s) =
     completed s + length (filter (\<lambda>e. case e of AfterProcess i \<Rightarrow> True | _ \<Rightarrow> False) tr)"
proof (induction tr arbitrary: s)
  case Nil
  show ?case by simp
next
  case (Cons e tr)
  show ?case
    by (cases e)
       (simp_all add: Cons.IH persist_def saveCaptions_def mark_done_def after_process_def
          split: option.splits)
qed

lemma count_process_tasks:
  "length (filter (\<lambda>e. case e of AfterProcess i \<Rightarrow> True | _ \<Rightarrow> False)
     (concat (map (\<lambda>f. transcribe_task w (failed_id f)) fs))) = length fs"
  by (induction fs) (simp_all add: transcribe_task_def)

lemma completed_transcribe_all:
  "completed (transcribe_all w toProcess s) = completed s + length toProcess"
  by (simp add: transcribe_all_def completed_fold_transcribe length_filter_sched_trace
        count_process_tasks)

lemma writes_transcribe_all:
  "length (progress_writes (transcribe_all w toProcess (init_state p))) = length toProcess div 5"
  using transcribe_fold_writes [of "init_state p" w]
        completed_transcribe_all [of w toProcess "init_state p"]
  by (simp add: transcribe_all_def init_state_def)

text \<open>
  In the grabber the counter is incremented before \<^verbatim>\<open>await saveCaptions\<close> and tested
  after it, so the number of periodic snapshots depends on how the tasks overlap: with
  49 tasks completed, two further tasks that run one after the other write the snapshot
  of the 50th completion, and the same two tasks write none when both increment the
  counter before either tests it.
\<close>

lemma snapshots_depend_on_order:
  assumes "has_captions w u" "has_captions w v" "completed s = 49"
  shows "length (progress_writes
           (fold (grab_step w) [AfterFetch u, AfterSave u, AfterFetch v, AfterSave v] s)) =
         length (progress_writes s) + 1"
    and "progress_writes
           (fold (grab_step w) [AfterFetch u, AfterFetch v, AfterSave u, AfterSave v] s) =
         progress_writes s"
  using assms by (simp_all add: progress_writes_after_save progress_writes_after_fetch)

text \<open>The run of the grabber in \<open>listed_world\<close>, evaluated.\<close>

lemma playlists_differ:
  "js ''PLUBKwq0XD0ueR3CXGUhGpsD1puLcYJPUp'' \<noteq> js ''PLAbMhAYRuCUhawCEV2oXZGrienoKTN16X''"
  by (simp add: js_def)

lemma all_videos_listed: "all_videos listed_world = [listed_video (js ''a''), listed_video (js ''c'')]"
  by (simp add: all_videos_def PLAYLISTS_def fetchPlaylistVideos_def listed_world_def
        caption_world_def quiet_world_def playlists_differ List.map_filter_def listed_video_def
        or_string_def or_number_def)

lemma ids_differ: "js ''c'' \<noteq> js ''a''" "js ''c'' \<noteq> js ''b''" "js ''a'' \<noteq> js ''b''"
  by (simp_all add: js_def)

lemma fetchCaptions_listed_a:
  "fetchCaptions listed_world (listed_video (js ''a'')) =
     ([DirectCaption], Some [\<lparr>entry_text = js ''hi'', offset = 1, duration = 2\<rparr>])"
  by (simp add: fetchCaptions_def listed_world_def caption_world_def quiet_world_def
        listed_video_def)

lemma fetchCaptions_listed_c:
  "fetchCaptions listed_world (listed_video (js ''c'')) = ([DirectCaption, SubtitleFile], None)"
  by (simp add: fetchCaptions_def fetchCaptionsWithYtDlp_def listed_world_def caption_world_def
        quiet_world_def listed_video_def ids_differ)

lemma listed_world_fields:
  "progress_file listed_world = Missing" "scheduler listed_world = []"
  "clock listed_world = test_clock"
  by (simp_all add: listed_world_def caption_world_def quiet_world_def)

lemma main_grab_listed: "main_grab listed_world = Inr listed_result"
proof -
  have p: "pending_videos listed_world fresh_ledger =
      [listed_video (js ''a''), listed_video (js ''c'')]"
    by (simp add: pending_videos_def all_videos_listed fresh_ledger_def)
  have t: "grab_task listed_world (listed_video (js ''a'')) =
        [AfterFetch (listed_video (js ''a'')), AfterSave (listed_video (js ''a''))]"
      "grab_task listed_world (listed_video (js ''c'')) = [AfterFetch (listed_video (js ''c''))]"
    by (simp_all add: grab_task_def has_captions_def fetchCaptions_listed_a
          fetchCaptions_listed_c found_def)
  have i: "video_id (listed_video i) = i" for i
    by (simp add: listed_video_def)
  have g: "saveProgress listed_world
      (grab_all listed_world [listed_video (js ''a''), listed_video (js ''c'')]
         (init_state fresh_ledger)) = listed_result"
    by (simp add: grab_all_def t listed_world_fields after_fetch_def after_save_def
          fetchCaptions_listed_a fetchCaptions_listed_c found_def saveCaptions_def
          periodic_save_def saveProgress_def record_failure_def init_state_def fresh_ledger_def
          listed_result_def Let_def i test_clock_def)
  show ?thesis
    using p g
    by (simp add: main_grab_def loadProgress_def listed_world_fields Let_def
          flip: fresh_ledger_def)
qed

lemma progress_writes_after_process:
  "progress_writes (after_process w i s) =
     (if (completed s + 1) mod 5 = 0 then progress_writes s @ [progress (after_process w i s)]
      else progress_writes s)"
  by (simp add: after_process_def progress_writes_periodic_save periodic_save_def)

lemma main_grab_none:
  "loadProgress (progress_file w) = Inr p \<Longrightarrow> pending_videos w p = [] \<Longrightarrow>
   main_grab w = Inr (init_state p)"
  by (simp add: main_grab_def)

lemma main_grab_some:
  "loadProgress (progress_file w) = Inr p \<Longrightarrow> pending_videos w p \<noteq> [] \<Longrightarrow>
   main_grab w = Inr (saveProgress w (grab_all w (pending_videos w p) (init_state p)))"
  by (simp add: main_grab_def Let_def)

lemma main_transcribe_none:
  "loadProgress (progress_file w) = Inr p \<Longrightarrow> failedVideos p = [] \<Longrightarrow>
   main_transcribe w = Inr (init_state p)"
  by (simp add: main_transcribe_def)

lemma main_transcribe_some:
  "loadProgress (progress_file w) = Inr p \<Longrightarrow> failedVideos p \<noteq> [] \<Longrightarrow>
   main_transcribe w = Inr (saveProgress w (transcribe_all w (to_process w p) (init_state p)))"
  by (simp add: main_transcribe_def)

text \<open>
  C3, as the code has it. Both scripts return before any snapshot when there is nothing
  to do: the grabber when no video is pending, the speech-to-text script when the ledger
  holds no failed video. Otherwise the ledger is written exactly once after all tasks
  have completed, as the last write, also when the speech-to-text script processes no
  video (a limit of 0). A task writes the ledger at its end when the counter
  \<^verbatim>\<open>completed\<close> is then a multiple of 50 (grabber) or of 5 (speech-to-text script). In
  the speech-to-text script, whatever the order of the tasks, this gives one snapshot
  for every 5 completions; in the grabber it does so when the tasks run one after the
  other.
\<close>

theorem ledger_snapshots:
  assumes "loadProgress (progress_file w) = Inr p"
    and "G = grab_all w (pending_videos w p) (init_state p)"
    and "T = transcribe_all w (to_process w p) (init_state p)"
  shows
    "(pending_videos w p = [] \<longrightarrow>
        main_grab w = Inr (init_state p) \<and> progress_writes (init_state p) = []) \<and>
     (pending_videos w p \<noteq> [] \<longrightarrow>
        main_grab w = Inr (saveProgress w G) \<and>
        completed G = length (pending_videos w p) \<and>
        progress_writes (saveProgress w G) = progress_writes G @ [progress (saveProgress w G)] \<and>
        (scheduler w = [] \<longrightarrow>
           length (progress_writes (saveProgress w G)) = length (pending_videos w p) div 50 + 1)) \<and>
     (failedVideos p = [] \<longrightarrow>
        main_transcribe w = Inr (init_state p) \<and> progress_writes (init_state p) = []) \<and>
     (failedVideos p \<noteq> [] \<longrightarrow>
        main_transcribe w = Inr (saveProgress w T) \<and>
        completed T = length (to_process w p) \<and>
        progress_writes (saveProgress w T) = progress_writes T @ [progress (saveProgress w T)] \<and>
        length (progress_writes (saveProgress w T)) = length (to_process w p) div 5 + 1) \<and>
     (\<forall>v s. progress_writes (after_fetch w v s) =
        (if \<not> has_captions w v \<and> (completed s + 1) mod 50 = 0
         then progress_writes s @ [progress (after_fetch w v s)] else progress_writes s)) \<and>
     (\<forall>v s. progress_writes (after_save w v s) =
        (if completed s mod 50 = 0
         then progress_writes s @ [progress (after_save w v s)] else progress_writes s)) \<and>
     (\<forall>i s. progress_writes (after_process w i s) =
        (if (completed s + 1) mod 5 = 0
         then progress_writes s @ [progress (after_process w i s)] else progress_writes s) \<and>
        progress_writes (persist w i s) = progress_writes s \<and>
        progress_writes (mark_done i s) = progress_writes s)"
proof (intro conjI impI allI)
  assume e: "pending_videos w p = []"
  show "main_grab w = Inr (init_state p)" using assms(1) e by (rule main_grab_none)
  show "progress_writes (init_state p) = []" by (simp add: init_state_def)
next
  assume n: "pending_videos w p \<noteq> []"
  show "main_grab w = Inr (saveProgress w G)"
    unfolding assms(2) using assms(1) n by (rule main_grab_some)
  show "completed G = length (pending_videos w p)"
    by (simp add: assms(2) completed_grab_all init_state_def)
  show "progress_writes (saveProgress w G) = progress_writes G @ [progress (saveProgress w G)]"
    by simp
  assume "scheduler w = []"
  then show "length (progress_writes (saveProgress w G)) = length (pending_videos w p) div 50 + 1"
    by (simp add: assms(2) grab_all_sequential)
next
  assume e: "failedVideos p = []"
  show "main_transcribe w = Inr (init_state p)" using assms(1) e by (rule main_transcribe_none)
  show "progress_writes (init_state p) = []" by (simp add: init_state_def)
next
  assume n: "failedVideos p \<noteq> []"
  show "main_transcribe w = Inr (saveProgress w T)"
    unfolding assms(3) using assms(1) n by (rule main_transcribe_some)
  show "completed T = length (to_process w p)"
    by (simp add: assms(3) completed_transcribe_all init_state_def)
  show "progress_writes (saveProgress w T) = progress_writes T @ [progress (saveProgress w T)]"
    by simp
  show "length (progress_writes (saveProgress w T)) = length (to_process w p) div 5 + 1"
    by (simp add: assms(3) writes_transcribe_all)
next
  fix v s
  show "progress_writes (after_fetch w v s) =
        (if \<not> has_captions w v \<and> (completed s + 1) mod 50 = 0
         then progress_writes s @ [progress (after_fetch w v s)] else progress_writes s)"
    by (rule progress_writes_after_fetch)
  show "progress_writes (after_save w v s) =
        (if completed s mod 50 = 0
         then progress_writes s @ [progress (after_save w v s)] else progress_writes s)"
    by (rule progress_writes_after_save)
next
  fix i s
  show "progress_writes (after_process w i s) =
        (if (completed s + 1) mod 5 = 0
         then progress_writes s @ [progress (after_process w i s)] else progress_writes s)"
    by (rule progress_writes_after_process)
  show "progress_writes (persist w i s) = progress_writes s"
    by (simp add: persist_def saveCaptions_def split: option.splits)
  show "progress_writes (mark_done i s) = progress_writes s"
    by (simp add: mark_done_def)
qed

lemma pending_listed:
  "pending_videos listed_world fresh_ledger = [listed_video (js ''a''), listed_video (js ''c'')]"
  by (simp add: pending_videos_def all_videos_listed fresh_ledger_def)

lemma load_listed: "loadProgress (progress_file listed_world) = Inr fresh_ledger"
  by (simp add: loadProgress_def listed_world_fields fresh_ledger_def)

lemma to_process_retry:
  "to_process retry_world test_ledger =
     [\<lparr>failed_id = js ''a'', error = js ''No captions available'', lastAttempt = js ''T''\<rparr>]"
  by (simp add: to_process_def retry_world_def quiet_world_def limit_of_args_def js_nth_def
        js_slice_to_def test_ledger_def)

theorem ledger_snapshots_witness:
  "loadProgress (progress_file listed_world) = Inr fresh_ledger \<and>
   pending_videos listed_world fresh_ledger \<noteq> [] \<and>
   scheduler listed_world = [] \<and>
   main_grab listed_world = Inr listed_result \<and>
   length (progress_writes listed_result) = 1 \<and>
   loadProgress (progress_file retry_world) = Inr test_ledger \<and>
   failedVideos test_ledger \<noteq> [] \<and>
   length (progress_writes (saveProgress retry_world
       (transcribe_all retry_world (to_process retry_world test_ledger) (init_state test_ledger))))
     = 1"
proof -
  have l: "loadProgress (progress_file retry_world) = Inr test_ledger"
    by (simp add: loadProgress_def retry_world_def)
  have f: "failedVideos test_ledger \<noteq> []" by (simp add: test_ledger_def)
  have n: "pending_videos listed_world fresh_ledger \<noteq> []" by (simp add: pending_listed)
  have g: "saveProgress listed_world
      (grab_all listed_world (pending_videos listed_world fresh_ledger) (init_state fresh_ledger))
      = listed_result"
    using main_grab_listed main_grab_some [OF load_listed n] by simp
  have "length (progress_writes (saveProgress listed_world
      (grab_all listed_world (pending_videos listed_world fresh_ledger) (init_state fresh_ledger))))
      = length (pending_videos listed_world fresh_ledger) div 50 + 1"
    using ledger_snapshots [OF load_listed refl refl] n listed_world_fields(2) by blast
  then have a: "length (progress_writes listed_result) = 1"
    unfolding g by (simp add: pending_listed)
  have "length (progress_writes (saveProgress retry_world
       (transcribe_all retry_world (to_process retry_world test_ledger) (init_state test_ledger))))
     = length (to_process retry_world test_ledger) div 5 + 1"
    using ledger_snapshots [OF l refl refl] f by blast
  then have b: "length (progress_writes (saveProgress retry_world
       (transcribe_all retry_world (to_process retry_world test_ledger) (init_state test_ledger))))
     = 1"
    by (simp add: to_process_retry)
  show ?thesis
    using l f n load_listed main_grab_listed listed_world_fields(2) a b by simp
qed

text \<open>
  C3 as stated fails: with no pending video the grabber writes no snapshot at all, and
  neither does the speech-to-text script when no video has failed.
\<close>

theorem no_snapshot_counterexample:
  "loadProgress (progress_file quiet_world) = Inr fresh_ledger \<and>
   pending_videos quiet_world fresh_ledger = [] \<and>
   main_grab quiet_world = Inr (init_state fresh_ledger) \<and>
   failedVideos fresh_ledger = [] \<and>
   main_transcribe quiet_world = Inr (init_state fresh_ledger) \<and>
   progress_writes (init_state fresh_ledger) = []"
  by (simp add: loadProgress_def quiet_world_def fresh_ledger_def pending_videos_def
        all_videos_def PLAYLISTS_def fetchPlaylistVideos_def main_grab_def main_transcribe_def
        init_state_def)

section \<open>Properties of \<^verbatim>\<open>processVideo\<close>\<close>

lemma processVideo_speech:
  "processVideo w videoId s =
     (case speech_to_text w videoId of
        None \<Rightarrow> (False, s)
      | Some r \<Rightarrow> (True, mark_done videoId (persist w videoId s)))"
  by (auto simp: processVideo_def speech_to_text_def persist_def mark_done_def found_def
        Let_def saveCaptions_def split: option.splits)

lemma progress_persist [simp]: "progress (persist w videoId s) = progress s"
  by (simp add: persist_def saveCaptions_def split: option.splits prod.splits)

text \<open>
  The segments of a task, run one after the other, are \<^verbatim>\<open>processVideo\<close> followed by the
  code of \<^verbatim>\<open>main\<close> behind it.
\<close>

lemma transcribe_task_processVideo:
  "fold (transcribe_step w) (transcribe_task w videoId) s =
     after_process w videoId (snd (processVideo w videoId s))"
  by (simp add: transcribe_task_def processVideo_speech split: option.splits)

lemma processVideo_success:
  "fst (processVideo w X s) \<Longrightarrow> snd (processVideo w X s) = mark_done X (persist w X s)"
  by (simp add: processVideo_speech split: option.splits)

lemma processVideo_failure: "\<not> fst (processVideo w X s) \<Longrightarrow> snd (processVideo w X s) = s"
  by (simp add: processVideo_speech split: option.splits)

lemma processVideo_no_info: "getVideoInfo w X = None \<Longrightarrow> processVideo w X s = (False, s)"
  by (simp add: processVideo_def)

lemma processVideo_no_audio: "downloadAudio w X = None \<Longrightarrow> processVideo w X s = (False, s)"
  by (simp add: processVideo_def split: option.splits)

lemma processVideo_no_captions:
  "getVideoInfo w X = Some info \<Longrightarrow> downloadAudio w X = Some path \<Longrightarrow>
   transcribeWithGroq w path (title info) \<in> {None, Some []} \<Longrightarrow>
   processVideo w X s = (False, s)"
  by (auto simp: processVideo_def)

text \<open>
  C10. When \<^verbatim>\<open>processVideo\<close> returns true for the id \<open>X\<close>, it has appended \<open>X\<close> to
  \<^verbatim>\<open>processedVideos\<close> and removed every entry of \<open>X\<close> from \<^verbatim>\<open>failedVideos\<close>, so \<open>X\<close> is
  no longer among the failed ids. When it returns false it leaves the whole store as it
  was, and it returns false on each failure path: no video info, no audio, a
  transcription that throws or that is empty.
\<close>

theorem processVideo_ledger:
  "(fst (processVideo w X s) \<longrightarrow>
      processedVideos (progress (snd (processVideo w X s))) = processedVideos (progress s) @ [X] \<and>
      failedVideos (progress (snd (processVideo w X s))) =
        filter (\<lambda>f. failed_id f \<noteq> X) (failedVideos (progress s)) \<and>
      X \<notin> failed_id ` set (failedVideos (progress (snd (processVideo w X s))))) \<and>
   (\<not> fst (processVideo w X s) \<longrightarrow> snd (processVideo w X s) = s) \<and>
   (getVideoInfo w X = None \<longrightarrow> processVideo w X s = (False, s)) \<and>
   (downloadAudio w X = None \<longrightarrow> processVideo w X s = (False, s)) \<and>
   (\<forall>info path. getVideoInfo w X = Some info \<and> downloadAudio w X = Some path \<and>
      transcribeWithGroq w path (title info) \<in> {None, Some []} \<longrightarrow>
      processVideo w X s = (False, s))"
proof (intro conjI impI allI)
  assume ok: "fst (processVideo w X s)"
  show "processedVideos (progress (snd (processVideo w X s))) = processedVideos (progress s) @ [X]"
    by (simp add: processVideo_success [OF ok] mark_done_def)
  show flt: "failedVideos (progress (snd (processVideo w X s))) =
        filter (\<lambda>f. failed_id f \<noteq> X) (failedVideos (progress s))"
    by (simp add: processVideo_success [OF ok] mark_done_def)
  show "X \<notin> failed_id ` set (failedVideos (progress (snd (processVideo w X s))))"
    unfolding flt by auto
next
  assume "\<not> fst (processVideo w X s)"
  then show "snd (processVideo w X s) = s" by (rule processVideo_failure)
next
  assume "getVideoInfo w X = None"
  then show "processVideo w X s = (False, s)" by (rule processVideo_no_info)
next
  assume "downloadAudio w X = None"
  then show "processVideo w X s = (False, s)" by (rule processVideo_no_audio)
next
  fix info path
  assume "getVideoInfo w X = Some info \<and> downloadAudio w X = Some path \<and>
      transcribeWithGroq w path (title info) \<in> {None, Some []}"
  then show "processVideo w X s = (False, s)"
    using processVideo_no_captions by blast
qed

theorem processVideo_ledger_witness:
  "fst (processVideo heard_world (js ''a'') (init_state test_ledger)) \<and>
   processedVideos (progress (snd (processVideo heard_world (js ''a'') (init_state test_ledger))))
     = [js ''a''] \<and>
   failedVideos (progress (snd (processVideo heard_world (js ''a'') (init_state test_ledger))))
     = [\<lparr>failed_id = js ''b'', error = js ''No captions available'', lastAttempt = js ''T''\<rparr>] \<and>
   getVideoInfo quiet_world (js ''a'') = None \<and>
   \<not> fst (processVideo quiet_world (js ''a'') (init_state test_ledger)) \<and>
   snd (processVideo quiet_world (js ''a'') (init_state test_ledger)) = init_state test_ledger"
proof -
  have ok: "fst (processVideo heard_world (js ''a'') (init_state test_ledger))"
    by (simp add: processVideo_def getVideoInfo_def downloadAudio_def transcribeWithGroq_def
          heard_world_def quiet_world_def Let_def)
  have no: "getVideoInfo quiet_world (js ''a'') = None"
    by (simp add: getVideoInfo_def quiet_world_def)
  have flt: "filter (\<lambda>f. failed_id f \<noteq> js ''a'') (failedVideos (progress (init_state test_ledger)))
     = [\<lparr>failed_id = js ''b'', error = js ''No captions available'', lastAttempt = js ''T''\<rparr>]"
    by (simp add: init_state_def test_ledger_def js_def)
  have "processedVideos (progress (init_state test_ledger)) = []"
    by (simp add: init_state_def test_ledger_def)
  with ok no flt show ?thesis
    using processVideo_ledger [of heard_world "js ''a''" "init_state test_ledger"]
      processVideo_ledger [of quiet_world "js ''a''" "init_state test_ledger"]
    by simp
qed

section \<open>Failed videos\<close>

lemma fold_invariant_events:
  "P s \<Longrightarrow> (\<And>e s. e \<in> set tr \<Longrightarrow> P s \<Longrightarrow> P (step e s)) \<Longrightarrow> P (fold step tr s)"
  by (induction tr arbitrary: s) simp_all

lemma fold_reaches:
  assumes "e \<in> set tr" and "I s"
    and inv: "\<And>e' s. e' \<in> set tr \<Longrightarrow> I s \<Longrightarrow> I (step e' s)"
    and est: "\<And>s. I s \<Longrightarrow> Q (step e s)"
    and keep: "\<And>e' s. e' \<in> set tr \<Longrightarrow> I s \<Longrightarrow> Q s \<Longrightarrow> Q (step e' s)"
  shows "Q (fold step tr s)"
proof -
  have iq: "I s \<and> Q s \<Longrightarrow> set tr' \<subseteq> set tr \<Longrightarrow> I (fold step tr' s) \<and> Q (fold step tr' s)"
    for tr' s
    by (induction tr' arbitrary: s) (auto simp: inv keep)
  have "e \<in> set tr' \<Longrightarrow> set tr' \<subseteq> set tr \<Longrightarrow> I s \<Longrightarrow> Q (fold step tr' s)" for tr' s
  proof (induction tr' arbitrary: s)
    case Nil
    then show ?case by simp
  next
    case (Cons a tr')
    show ?case
    proof (cases "a = e")
      case True
      have "I (step e s) \<and> Q (step e s)" using Cons.prems inv est True by auto
      then show ?thesis using iq [of "step e s" tr'] Cons.prems True by simp
    next
      case False
      then have "e \<in> set tr'" using Cons.prems by simp
      moreover have "I (step a s)" using Cons.prems inv by auto
      ultimately show ?thesis using Cons.IH [of "step a s"] Cons.prems by simp
    qed
  qed
  then show ?thesis using assms(1,2) by blast
qed

text \<open>The list of failed videos.\<close>

lemma find_failed_None:
  "find (\<lambda>f. failed_id f = vid) fs = None \<longleftrightarrow> vid \<notin> failed_id ` set fs"
  by (induction fs) auto

lemma ids_touch_first [simp]: "map failed_id (touch_first vid t fs) = map failed_id fs"
  by (induction fs) simp_all

lemma record_failure_absent:
  "vid \<notin> failed_id ` set fs \<Longrightarrow>
   record_failure vid t fs =
     fs @ [\<lparr>failed_id = vid, error = js ''No captions available'', lastAttempt = t\<rparr>]"
  using find_failed_None [of vid fs] by (simp add: record_failure_def)

lemma record_failure_present:
  "vid \<in> failed_id ` set fs \<Longrightarrow> record_failure vid t fs = touch_first vid t fs"
  using find_failed_None [of vid fs] by (auto simp: record_failure_def split: option.splits)

lemma ids_record_failure:
  "map failed_id (record_failure vid t fs) =
     (if vid \<in> failed_id ` set fs then map failed_id fs else map failed_id fs @ [vid])"
  by (simp add: record_failure_absent record_failure_present)

lemma distinct_record_failure:
  "distinct (map failed_id fs) \<Longrightarrow> distinct (map failed_id (record_failure vid t fs))"
  by (auto simp: ids_record_failure)

lemma touch_first_others:
  "filter (\<lambda>f. failed_id f \<noteq> vid) (touch_first vid t fs) = filter (\<lambda>f. failed_id f \<noteq> vid) fs"
  by (induction fs) simp_all

lemma touch_first_entry:
  "distinct (map failed_id fs) \<Longrightarrow> filter (\<lambda>f. failed_id f = vid) fs = [e] \<Longrightarrow>
   filter (\<lambda>f. failed_id f = vid) (touch_first vid t fs) = [e\<lparr>lastAttempt := t\<rparr>]"
proof (induction fs)
  case Nil
  then show ?case by simp
next
  case (Cons f fs)
  show ?case
  proof (cases "failed_id f = vid")
    case True
    then have "vid \<notin> failed_id ` set fs" using Cons.prems(1) by auto
    then have "filter (\<lambda>f. failed_id f = vid) fs = []" by (auto simp: filter_empty_conv)
    then show ?thesis using True Cons.prems(2) by simp
  next
    case False
    then show ?thesis using Cons by simp
  qed
qed

lemma one_entry:
  "distinct (map failed_id fs) \<Longrightarrow> vid \<in> failed_id ` set fs \<Longrightarrow>
   \<exists>e. filter (\<lambda>f. failed_id f = vid) fs = [e]"
proof (induction fs)
  case Nil
  then show ?case by simp
next
  case (Cons f fs)
  show ?case
  proof (cases "failed_id f = vid")
    case True
    then have "vid \<notin> failed_id ` set fs" using Cons.prems(1) by auto
    then have "filter (\<lambda>f. failed_id f = vid) fs = []" by (auto simp: filter_empty_conv)
    then show ?thesis using True by simp
  next
    case False
    then show ?thesis using Cons by auto
  qed
qed

lemma record_failure_others:
  "filter (\<lambda>f. failed_id f \<noteq> vid) (record_failure vid t fs) = filter (\<lambda>f. failed_id f \<noteq> vid) fs"
  by (cases "vid \<in> failed_id ` set fs")
     (simp_all add: record_failure_absent record_failure_present touch_first_others)

text \<open>What a run of the grabber keeps true.\<close>

lemma fetchCaptionsWithYtDlp_id:
  "video_id v = video_id v' \<Longrightarrow> fetchCaptionsWithYtDlp w v = fetchCaptionsWithYtDlp w v'"
  by (simp add: fetchCaptionsWithYtDlp_def)

lemma fetchCaptions_id:
  "video_id v = video_id v' \<Longrightarrow> fetchCaptions w v = fetchCaptions w v'"
  using fetchCaptionsWithYtDlp_id [of v v' w]
  by (simp add: fetchCaptions_def split: transcript_outcome.splits option.splits)

lemma failed_ids_record_failure:
  "failed_id ` set (record_failure vid t fs) = insert vid (failed_id ` set fs)"
proof -
  have "set (map failed_id (record_failure vid t fs)) = insert vid (set (map failed_id fs))"
    unfolding ids_record_failure by auto
  then show ?thesis by simp
qed

lemma has_captions_id: "video_id v = video_id v' \<Longrightarrow> has_captions w v = has_captions w v'"
  by (simp add: has_captions_def fetchCaptions_id [of v v'])

lemma grab_events:
  "e \<in> set (concat (map (grab_task w) vs)) \<longleftrightarrow>
     (\<exists>v \<in> set vs. e = AfterFetch v \<or> (e = AfterSave v \<and> has_captions w v))"
  by (auto simp: grab_task_def split: if_splits)

lemma grab_all_invariant:
  assumes "P s"
    and "\<And>v s. v \<in> set vs \<Longrightarrow> P s \<Longrightarrow> P (after_fetch w v s)"
    and "\<And>v s. v \<in> set vs \<Longrightarrow> has_captions w v \<Longrightarrow> P s \<Longrightarrow> P (after_save w v s)"
  shows "P (grab_all w vs s)"
  unfolding grab_all_def
proof (rule fold_invariant_events [where P = P, OF assms(1)])
  fix e s
  assume "e \<in> set (sched_trace CONCURRENCY_LIMIT_grab (map (grab_task w) vs) (scheduler w))"
  then have "\<exists>v \<in> set vs. e = AfterFetch v \<or> (e = AfterSave v \<and> has_captions w v)"
    by (simp add: set_sched_trace grab_events del: set_concat)
  moreover assume "P s"
  ultimately show "P (grab_step w e s)" using assms(2,3) by auto
qed

lemma distinct_after_fetch:
  "distinct (map failed_id (failedVideos (progress s))) \<Longrightarrow>
   distinct (map failed_id (failedVideos (progress (after_fetch w v s))))"
  by (simp add: failedVideos_after_fetch distinct_record_failure)

lemma distinct_grab_all:
  "distinct (map failed_id (failedVideos (progress s))) \<Longrightarrow>
   distinct (map failed_id (failedVideos (progress (grab_all w vs s))))"
  by (rule grab_all_invariant) (simp_all add: distinct_after_fetch)

lemma failed_ids_after_fetch:
  "failed_id ` set (failedVideos (progress s)) \<subseteq>
   failed_id ` set (failedVideos (progress (after_fetch w v s)))"
  by (auto simp: failedVideos_after_fetch failed_ids_record_failure)

lemma failed_id_recorded:
  "\<not> has_captions w v \<Longrightarrow> video_id v \<in> failed_id ` set (failedVideos (progress (after_fetch w v s)))"
  by (simp add: failedVideos_after_fetch failed_ids_record_failure)

lemma failed_id_grab_all:
  assumes "v \<in> set vs" "\<not> has_captions w v"
  shows "video_id v \<in> failed_id ` set (failedVideos (progress (grab_all w vs s)))"
  unfolding grab_all_def
proof (rule fold_reaches [where e = "AfterFetch v" and I = "\<lambda>s. True"
      and Q = "\<lambda>s. video_id v \<in> failed_id ` set (failedVideos (progress s))"])
  show "AfterFetch v \<in> set (sched_trace CONCURRENCY_LIMIT_grab (map (grab_task w) vs) (scheduler w))"
    using assms(1) by (simp add: set_sched_trace grab_events del: set_concat)
next
  fix s :: run_state
  show "video_id v \<in> failed_id ` set (failedVideos (progress (grab_step w (AfterFetch v) s)))"
    using assms(2) by (simp add: failed_id_recorded)
next
  fix e' and s :: run_state
  assume q: "video_id v \<in> failed_id ` set (failedVideos (progress s))"
  show "video_id v \<in> failed_id ` set (failedVideos (progress (grab_step w e' s)))"
  proof (cases e')
    case (AfterFetch u)
    then show ?thesis using q failed_ids_after_fetch [of s w u] by (simp add: subsetD)
  next
    case (AfterSave u)
    then show ?thesis using q by simp
  qed
qed simp_all

lemma caption_files_grab_all:
  "\<forall>c \<in> set (caption_files s). has_captions w (video c) \<Longrightarrow>
   \<forall>c \<in> set (caption_files (grab_all w vs s)). has_captions w (video c)"
  by (rule grab_all_invariant)
     (auto simp: caption_files_after_fetch has_captions_def split: option.splits)

lemma processed_grab_all:
  "\<forall>i \<in> set (processedVideos (progress s)). i \<in> D \<or> (\<exists>v \<in> set vs. video_id v = i \<and> has_captions w v) \<Longrightarrow>
   \<forall>i \<in> set (processedVideos (progress (grab_all w vs s))).
      i \<in> D \<or> (\<exists>v \<in> set vs. video_id v = i \<and> has_captions w v)"
  by (rule grab_all_invariant) auto

lemma set_touch_first:
  "f \<in> set (touch_first vid t fs) \<Longrightarrow> f \<in> set fs \<or> (\<exists>g \<in> set fs. f = g\<lparr>lastAttempt := t\<rparr>)"
  by (induction fs) (auto split: if_splits)

lemma new_entries_record_failure:
  assumes "\<forall>f \<in> set fs. failed_id f \<in> D \<or>
             (error f = js ''No captions available'' \<and> lastAttempt f \<in> range c)"
    and "t \<in> range c"
  shows "\<forall>f \<in> set (record_failure vid t fs). failed_id f \<in> D \<or>
             (error f = js ''No captions available'' \<and> lastAttempt f \<in> range c)"
proof (cases "vid \<in> failed_id ` set fs")
  case False
  then show ?thesis using assms by (auto simp: record_failure_absent)
next
  case True
  show ?thesis
    unfolding record_failure_present [OF True]
  proof
    fix f
    assume "f \<in> set (touch_first vid t fs)"
    then consider "f \<in> set fs" | g where "g \<in> set fs" "f = g\<lparr>lastAttempt := t\<rparr>"
      using set_touch_first by blast
    then show "failed_id f \<in> D \<or>
             (error f = js ''No captions available'' \<and> lastAttempt f \<in> range c)"
    proof cases
      case 1
      then show ?thesis using assms(1) by blast
    next
      case 2
      then show ?thesis using assms by auto
    qed
  qed
qed

lemma new_entries_after_fetch:
  assumes "\<forall>f \<in> set (failedVideos (progress s)). failed_id f \<in> D \<or>
      (error f = js ''No captions available'' \<and> lastAttempt f \<in> range (clock w))"
  shows "\<forall>f \<in> set (failedVideos (progress (after_fetch w v s))). failed_id f \<in> D \<or>
      (error f = js ''No captions available'' \<and> lastAttempt f \<in> range (clock w))"
proof (cases "has_captions w v")
  case True
  then show ?thesis using assms by (simp add: failedVideos_after_fetch)
next
  case False
  have "clock w (ticks s) \<in> range (clock w)" by simp
  from new_entries_record_failure [OF assms this] False show ?thesis
    by (simp add: failedVideos_after_fetch)
qed

lemma new_entries_grab_all:
  "\<forall>f \<in> set (failedVideos (progress s)). failed_id f \<in> D \<or>
      (error f = js ''No captions available'' \<and> lastAttempt f \<in> range (clock w)) \<Longrightarrow>
   \<forall>f \<in> set (failedVideos (progress (grab_all w vs s))). failed_id f \<in> D \<or>
      (error f = js ''No captions available'' \<and> lastAttempt f \<in> range (clock w))"
  by (rule grab_all_invariant) (simp_all add: new_entries_after_fetch)

lemma length_one_entry:
  "distinct (map failed_id fs) \<Longrightarrow> vid \<in> failed_id ` set fs \<Longrightarrow>
   length (filter (\<lambda>f. failed_id f = vid) fs) = 1"
  using one_entry [of fs vid] by auto

lemma has_captions_absent: "has_captions w v \<longleftrightarrow> snd (fetchCaptions w v) \<noteq> None"
proof -
  have "snd (fetchCaptions w v) \<noteq> Some []"
    using fetchCaptionsWithYtDlp_nonempty [of w v]
    by (auto simp: fetchCaptions_def split: transcript_outcome.splits option.splits)
  then show ?thesis
    by (cases "snd (fetchCaptions w v)") (auto simp: has_captions_def found_def)
qed

lemma after_fetch_absent:
  assumes "snd (fetchCaptions w v) = None"
  shows "caption_files (after_fetch w v s) = caption_files s"
    and "processedVideos (progress (after_fetch w v s)) = processedVideos (progress s)"
    and "failedVideos (progress (after_fetch w v s)) =
          record_failure (video_id v) (clock w (ticks s)) (failedVideos (progress s))"
  using assms
  by (simp_all add: caption_files_after_fetch failedVideos_after_fetch has_captions_absent
        found_def)

lemma grab_all_failed_item:
  assumes "v \<in> set vs" "snd (fetchCaptions w v) = None"
    and "distinct (map failed_id (failedVideos p))"
    and "\<forall>u \<in> set vs. video_id u \<notin> set (processedVideos p)"
    and "G = grab_all w vs (init_state p)"
  shows "length (filter (\<lambda>f. failed_id f = video_id v) (failedVideos (progress G))) = 1"
    and "\<forall>f \<in> set (failedVideos (progress G)).
           failed_id f \<in> failed_id ` set (failedVideos p) \<or>
           (error f = js ''No captions available'' \<and> lastAttempt f \<in> range (clock w))"
    and "\<forall>c \<in> set (caption_files G). video_id (video c) \<noteq> video_id v"
    and "video_id v \<notin> set (processedVideos (progress G))"
    and "completed G = length vs"
proof -
  have n: "\<not> has_captions w v" using assms(2) by (simp add: has_captions_absent)
  have i: "progress (init_state p) = p" "caption_files (init_state p) = []"
    "completed (init_state p) = 0"
    by (simp_all add: init_state_def)
  have "distinct (map failed_id (failedVideos (progress G)))"
    unfolding assms(5) by (rule distinct_grab_all) (simp add: i assms(3))
  moreover have "video_id v \<in> failed_id ` set (failedVideos (progress G))"
    unfolding assms(5) using assms(1) n by (rule failed_id_grab_all)
  ultimately show "length (filter (\<lambda>f. failed_id f = video_id v) (failedVideos (progress G))) = 1"
    by (rule length_one_entry)
  show "\<forall>f \<in> set (failedVideos (progress G)).
           failed_id f \<in> failed_id ` set (failedVideos p) \<or>
           (error f = js ''No captions available'' \<and> lastAttempt f \<in> range (clock w))"
    unfolding assms(5) by (rule new_entries_grab_all) (simp add: i)
  have "\<forall>c \<in> set (caption_files G). has_captions w (video c)"
    unfolding assms(5) by (rule caption_files_grab_all) (simp add: i)
  then show "\<forall>c \<in> set (caption_files G). video_id (video c) \<noteq> video_id v"
    using n has_captions_id by blast
  have "\<forall>i \<in> set (processedVideos (progress G)).
      i \<in> set (processedVideos p) \<or> (\<exists>u \<in> set vs. video_id u = i \<and> has_captions w u)"
    unfolding assms(5) by (rule processed_grab_all) (simp add: i)
  then show "video_id v \<notin> set (processedVideos (progress G))"
    using n has_captions_id assms(1,4) by blast
  show "completed G = length vs"
    by (simp add: assms(5) completed_grab_all i)
qed

lemma pending_not_processed:
  "\<forall>u \<in> set (pending_videos w p). video_id u \<notin> set (processedVideos p)"
  by (simp add: pending_videos_def)

text \<open>
  C5. Let the resolver return absent for a pending video. Then, whatever the order of
  the tasks, at the end of the run the ledger (whose failed ids were distinct at the
  start) holds exactly one failed entry of its id; when the id was not among the failed
  ids before, that entry carries the reason \<open>No captions available\<close> and a reading of the
  clock as \<^verbatim>\<open>lastAttempt\<close>; no caption file of that id was written and the id is not
  marked done; and all pending videos were processed (\<^verbatim>\<open>completed\<close> is their number).
  The task itself leaves the caption files and \<^verbatim>\<open>processedVideos\<close> alone and pushes
  the entry when the id has none.
\<close>

theorem exhausted_item_marked_failed:
  assumes "loadProgress (progress_file w) = Inr p"
    and "v \<in> set (pending_videos w p)"
    and "snd (fetchCaptions w v) = None"
    and "distinct (map failed_id (failedVideos p))"
    and "main_grab w = Inr s"
  shows
    "length (filter (\<lambda>f. failed_id f = video_id v) (failedVideos (progress s))) = 1 \<and>
     (video_id v \<notin> failed_id ` set (failedVideos p) \<longrightarrow>
        (\<forall>f \<in> set (failedVideos (progress s)). failed_id f = video_id v \<longrightarrow>
           error f = js ''No captions available'' \<and> lastAttempt f \<in> range (clock w))) \<and>
     (\<forall>c \<in> set (caption_files s). video_id (video c) \<noteq> video_id v) \<and>
     video_id v \<notin> set (processedVideos (progress s)) \<and>
     completed s = length (pending_videos w p) \<and>
     (\<forall>s'. caption_files (after_fetch w v s') = caption_files s' \<and>
        processedVideos (progress (after_fetch w v s')) = processedVideos (progress s') \<and>
        failedVideos (progress (after_fetch w v s')) =
          record_failure (video_id v) (clock w (ticks s')) (failedVideos (progress s')) \<and>
        (video_id v \<notin> failed_id ` set (failedVideos (progress s')) \<longrightarrow>
           failedVideos (progress (after_fetch w v s')) =
             failedVideos (progress s') @
               [\<lparr>failed_id = video_id v, error = js ''No captions available'',
                 lastAttempt = clock w (ticks s')\<rparr>]))"
proof -
  let ?G = "grab_all w (pending_videos w p) (init_state p)"
  have ne: "pending_videos w p \<noteq> []" using assms(2) by auto
  have s: "s = saveProgress w ?G"
    using main_grab_some [OF assms(1) ne] assms(5) by simp
  note G = grab_all_failed_item [OF assms(2,3,4) pending_not_processed refl]
  have 1: "length (filter (\<lambda>f. failed_id f = video_id v) (failedVideos (progress s))) = 1"
    using G(1) by (simp add: s)
  have 2: "video_id v \<notin> failed_id ` set (failedVideos p) \<longrightarrow>
        (\<forall>f \<in> set (failedVideos (progress s)). failed_id f = video_id v \<longrightarrow>
           error f = js ''No captions available'' \<and> lastAttempt f \<in> range (clock w))"
  proof (intro impI ballI)
    fix f
    assume a: "video_id v \<notin> failed_id ` set (failedVideos p)"
      and f: "f \<in> set (failedVideos (progress s))" and e: "failed_id f = video_id v"
    from f have "f \<in> set (failedVideos (progress ?G))" by (simp add: s)
    with G(2) have "failed_id f \<in> failed_id ` set (failedVideos p) \<or>
           (error f = js ''No captions available'' \<and> lastAttempt f \<in> range (clock w))"
      by blast
    with a e show "error f = js ''No captions available'' \<and> lastAttempt f \<in> range (clock w)"
      by simp
  qed
  have 3: "\<forall>c \<in> set (caption_files s). video_id (video c) \<noteq> video_id v"
    using G(3) by (simp add: s)
  have 4: "video_id v \<notin> set (processedVideos (progress s))"
    using G(4) by (simp add: s)
  have 5: "completed s = length (pending_videos w p)"
    using G(5) by (simp add: s)
  have 6: "\<forall>s'. caption_files (after_fetch w v s') = caption_files s' \<and>
        processedVideos (progress (after_fetch w v s')) = processedVideos (progress s') \<and>
        failedVideos (progress (after_fetch w v s')) =
          record_failure (video_id v) (clock w (ticks s')) (failedVideos (progress s')) \<and>
        (video_id v \<notin> failed_id ` set (failedVideos (progress s')) \<longrightarrow>
           failedVideos (progress (after_fetch w v s')) =
             failedVideos (progress s') @
               [\<lparr>failed_id = video_id v, error = js ''No captions available'',
                 lastAttempt = clock w (ticks s')\<rparr>])"
    by (simp add: after_fetch_absent [OF assms(3)] record_failure_absent)
  from 1 2 3 4 5 6 show ?thesis by blast
qed

lemma listed_c_absent: "snd (fetchCaptions listed_world (listed_video (js ''c''))) = None"
  by (simp add: fetchCaptions_listed_c)

theorem exhausted_item_marked_failed_witness:
  "loadProgress (progress_file listed_world) = Inr fresh_ledger \<and>
   listed_video (js ''c'') \<in> set (pending_videos listed_world fresh_ledger) \<and>
   snd (fetchCaptions listed_world (listed_video (js ''c''))) = None \<and>
   distinct (map failed_id (failedVideos fresh_ledger)) \<and>
   main_grab listed_world = Inr listed_result \<and>
   failedVideos (progress listed_result) =
     [\<lparr>failed_id = js ''c'', error = js ''No captions available'', lastAttempt = test_clock 1\<rparr>] \<and>
   length (filter (\<lambda>f. failed_id f = video_id (listed_video (js ''c'')))
             (failedVideos (progress listed_result))) = 1 \<and>
   video_id (listed_video (js ''c'')) \<notin> set (processedVideos (progress listed_result)) \<and>
   completed listed_result = length (pending_videos listed_world fresh_ledger)"
proof -
  have m: "listed_video (js ''c'') \<in> set (pending_videos listed_world fresh_ledger)"
    by (simp add: pending_listed)
  have d: "distinct (map failed_id (failedVideos fresh_ledger))"
    by (simp add: fresh_ledger_def)
  have f: "failedVideos (progress listed_result) =
     [\<lparr>failed_id = js ''c'', error = js ''No captions available'', lastAttempt = test_clock 1\<rparr>]"
    by (simp add: listed_result_def)
  show ?thesis
    using exhausted_item_marked_failed [OF load_listed m listed_c_absent d main_grab_listed]
      load_listed m listed_c_absent d main_grab_listed f
    by blast
qed

section \<open>Videos that fail again\<close>

text \<open>What a run of the speech-to-text script keeps true.\<close>

lemma transcribe_events:
  "e \<in> set (concat (map (\<lambda>f. transcribe_task w (failed_id f)) fs)) \<longleftrightarrow>
     (\<exists>f \<in> set fs. e = AfterProcess (failed_id f) \<or>
        (speech_to_text w (failed_id f) \<noteq> None \<and>
         (e = Persist (failed_id f) \<or> e = MarkDone (failed_id f))))"
  by (induction fs) (auto simp: transcribe_task_def)

lemma transcribe_all_invariant:
  assumes "P s"
    and "\<And>i s. P s \<Longrightarrow> P (after_process w i s)"
    and "\<And>i s. speech_to_text w i \<noteq> None \<Longrightarrow> P s \<Longrightarrow> P (persist w i s)"
    and "\<And>i s. speech_to_text w i \<noteq> None \<Longrightarrow> P s \<Longrightarrow> P (mark_done i s)"
  shows "P (transcribe_all w fs s)"
  unfolding transcribe_all_def
proof (rule fold_invariant_events [where P = P, OF assms(1)])
  fix e s
  assume "e \<in> set (sched_trace CONCURRENCY_LIMIT_transcribe
      (map (\<lambda>failed. transcribe_task w (failed_id failed)) fs) (scheduler w))"
  then have "\<exists>f \<in> set fs. e = AfterProcess (failed_id f) \<or>
        (speech_to_text w (failed_id f) \<noteq> None \<and>
         (e = Persist (failed_id f) \<or> e = MarkDone (failed_id f)))"
    by (simp add: set_sched_trace transcribe_events del: set_concat)
  moreover assume "P s"
  ultimately show "P (transcribe_step w e s)" using assms(2,3,4) by auto
qed

lemma failedVideos_after_process [simp]:
  "failedVideos (progress (after_process w i s)) = failedVideos (progress s)"
  by (simp add: after_process_def)

lemma transcribe_all_keeps_entries:
  assumes "speech_to_text w X = None"
  shows "filter (\<lambda>f. failed_id f = X) (failedVideos (progress (transcribe_all w fs s))) =
         filter (\<lambda>f. failed_id f = X) (failedVideos (progress s))"
proof (rule transcribe_all_invariant
    [where P = "\<lambda>s'. filter (\<lambda>f. failed_id f = X) (failedVideos (progress s')) =
                      filter (\<lambda>f. failed_id f = X) (failedVideos (progress s))"])
  fix i and s' :: run_state
  assume "speech_to_text w i \<noteq> None"
  then have "i \<noteq> X" using assms by auto
  then have "filter (\<lambda>f. failed_id f = X) (filter (\<lambda>f. failed_id f \<noteq> i) (failedVideos (progress s')))
      = filter (\<lambda>f. failed_id f = X) (failedVideos (progress s'))"
    by (auto intro: filter_cong)
  moreover assume "filter (\<lambda>f. failed_id f = X) (failedVideos (progress s')) =
                      filter (\<lambda>f. failed_id f = X) (failedVideos (progress s))"
  ultimately show "filter (\<lambda>f. failed_id f = X) (failedVideos (progress (mark_done i s'))) =
                      filter (\<lambda>f. failed_id f = X) (failedVideos (progress s))"
    by (simp add: mark_done_def)
qed simp_all

lemma grab_all_one_entry:
  assumes "distinct (map failed_id (failedVideos (progress s)))"
    and "v \<in> set vs" "snd (fetchCaptions w v) = None"
  shows "length (filter (\<lambda>f. failed_id f = video_id v)
           (failedVideos (progress (grab_all w vs s)))) = 1"
proof (rule length_one_entry)
  show "distinct (map failed_id (failedVideos (progress (grab_all w vs s))))"
    using assms(1) by (rule distinct_grab_all)
  show "video_id v \<in> failed_id ` set (failedVideos (progress (grab_all w vs s)))"
    using assms(2,3) by (simp add: failed_id_grab_all has_captions_absent)
qed

text \<open>
  C6, as the code has it. Let the id \<open>X\<close> have an entry in a ledger whose failed ids are
  distinct. In the grabber, a task for \<open>X\<close> that finds no captions leaves exactly one
  entry of \<open>X\<close>: the one there was, with \<^verbatim>\<open>lastAttempt\<close> set to the clock reading of the
  task and nothing else changed; the other entries and the order of the ids stay as
  they were, and at the end of the whole run there is still exactly one entry of \<open>X\<close>.
  In the speech-to-text script a failed attempt does not touch the list of failed
  videos: the entry of \<open>X\<close> stays as it was, \<^verbatim>\<open>lastAttempt\<close> included, through
  \<^verbatim>\<open>processVideo\<close> and through the whole run.
\<close>

theorem failed_again_entry:
  assumes "distinct (map failed_id (failedVideos (progress s)))"
    and "X \<in> failed_id ` set (failedVideos (progress s))"
  shows
    "(\<forall>v. video_id v = X \<and> snd (fetchCaptions w v) = None \<longrightarrow>
        (\<exists>e. filter (\<lambda>f. failed_id f = X) (failedVideos (progress s)) = [e] \<and>
             filter (\<lambda>f. failed_id f = X) (failedVideos (progress (after_fetch w v s))) =
               [e\<lparr>lastAttempt := clock w (ticks s)\<rparr>]) \<and>
        filter (\<lambda>f. failed_id f \<noteq> X) (failedVideos (progress (after_fetch w v s))) =
          filter (\<lambda>f. failed_id f \<noteq> X) (failedVideos (progress s)) \<and>
        map failed_id (failedVideos (progress (after_fetch w v s))) =
          map failed_id (failedVideos (progress s)) \<and>
        (\<forall>vs. v \<in> set vs \<longrightarrow>
           length (filter (\<lambda>f. failed_id f = X)
                     (failedVideos (progress (grab_all w vs s)))) = 1)) \<and>
     (\<not> fst (processVideo w X s) \<longrightarrow>
        failedVideos (progress (snd (processVideo w X s))) = failedVideos (progress s)) \<and>
     (speech_to_text w X = None \<longrightarrow>
        (\<forall>fs. filter (\<lambda>f. failed_id f = X) (failedVideos (progress (transcribe_all w fs s))) =
              filter (\<lambda>f. failed_id f = X) (failedVideos (progress s))))"
proof (intro conjI allI impI)
  fix v
  assume v: "video_id v = X \<and> snd (fetchCaptions w v) = None"
  then have a: "failedVideos (progress (after_fetch w v s)) =
      touch_first X (clock w (ticks s)) (failedVideos (progress s))"
    using assms(2) by (simp add: after_fetch_absent record_failure_present)
  obtain e where e: "filter (\<lambda>f. failed_id f = X) (failedVideos (progress s)) = [e]"
    using one_entry [OF assms] by blast
  show "\<exists>e. filter (\<lambda>f. failed_id f = X) (failedVideos (progress s)) = [e] \<and>
             filter (\<lambda>f. failed_id f = X) (failedVideos (progress (after_fetch w v s))) =
               [e\<lparr>lastAttempt := clock w (ticks s)\<rparr>]"
    using e touch_first_entry [OF assms(1) e] unfolding a by blast
  show "filter (\<lambda>f. failed_id f \<noteq> X) (failedVideos (progress (after_fetch w v s))) =
          filter (\<lambda>f. failed_id f \<noteq> X) (failedVideos (progress s))"
    unfolding a by (rule touch_first_others)
  show "map failed_id (failedVideos (progress (after_fetch w v s))) =
          map failed_id (failedVideos (progress s))"
    unfolding a by simp
  fix vs
  assume "v \<in> set vs"
  then show "length (filter (\<lambda>f. failed_id f = X)
                     (failedVideos (progress (grab_all w vs s)))) = 1"
    using grab_all_one_entry [OF assms(1), of v vs w] v by simp
next
  assume "\<not> fst (processVideo w X s)"
  then show "failedVideos (progress (snd (processVideo w X s))) = failedVideos (progress s)"
    by (simp add: processVideo_failure)
next
  fix fs
  assume "speech_to_text w X = None"
  then show "filter (\<lambda>f. failed_id f = X) (failedVideos (progress (transcribe_all w fs s))) =
              filter (\<lambda>f. failed_id f = X) (failedVideos (progress s))"
    by (rule transcribe_all_keeps_entries)
qed

lemma test_clock_differ: "test_clock 0 \<noteq> js ''T''" "test_clock 1 \<noteq> test_clock 0"
  by (simp_all add: test_clock_def js_def)

lemma speech_retry_none: "speech_to_text retry_world i = None"
  by (simp add: speech_to_text_def getVideoInfo_def retry_world_def quiet_world_def)

lemma retry_world_fields:
  "progress_file retry_world = Holds test_ledger" "scheduler retry_world = []"
  "clock retry_world = test_clock"
  by (simp_all add: retry_world_def quiet_world_def)

lemma main_transcribe_retry: "main_transcribe retry_world = Inr retry_result"
proof -
  have l: "loadProgress (progress_file retry_world) = Inr test_ledger"
    by (simp add: loadProgress_def retry_world_fields)
  have f: "failedVideos test_ledger \<noteq> []" by (simp add: test_ledger_def)
  have "saveProgress retry_world
      (transcribe_all retry_world (to_process retry_world test_ledger) (init_state test_ledger))
      = retry_result"
    by (simp add: to_process_retry transcribe_all_def transcribe_task_def speech_retry_none
          after_process_def periodic_save_def saveProgress_def init_state_def retry_result_def
          retry_world_fields Let_def)
  then show ?thesis using main_transcribe_some [OF l f] by simp
qed

theorem failed_again_entry_witness:
  "distinct (map failed_id (failedVideos (progress (init_state (progress listed_result))))) \<and>
   js ''c'' \<in> failed_id ` set (failedVideos (progress (init_state (progress listed_result)))) \<and>
   video_id (listed_video (js ''c'')) = js ''c'' \<and>
   snd (fetchCaptions listed_world (listed_video (js ''c''))) = None \<and>
   filter (\<lambda>f. failed_id f = js ''c'')
     (failedVideos (progress (after_fetch listed_world (listed_video (js ''c''))
        (init_state (progress listed_result))))) =
     [\<lparr>failed_id = js ''c'', error = js ''No captions available'', lastAttempt = test_clock 0\<rparr>] \<and>
   distinct (map failed_id (failedVideos (progress (init_state test_ledger)))) \<and>
   js ''a'' \<in> failed_id ` set (failedVideos (progress (init_state test_ledger))) \<and>
   \<not> fst (processVideo retry_world (js ''a'') (init_state test_ledger)) \<and>
   failedVideos (progress (snd (processVideo retry_world (js ''a'') (init_state test_ledger)))) =
     failedVideos test_ledger"
proof -
  have p: "failedVideos (progress (init_state (progress listed_result))) =
     [\<lparr>failed_id = js ''c'', error = js ''No captions available'', lastAttempt = test_clock 1\<rparr>]"
    "ticks (init_state (progress listed_result)) = 0"
    by (simp_all add: init_state_def listed_result_def)
  have d: "distinct (map failed_id (failedVideos (progress (init_state (progress listed_result)))))"
    and m: "js ''c'' \<in> failed_id ` set (failedVideos (progress (init_state (progress listed_result))))"
    by (simp_all add: p)
  have i: "video_id (listed_video (js ''c'')) = js ''c''" by (simp add: listed_video_def)
  have q: "failedVideos (progress (init_state test_ledger)) = failedVideos test_ledger"
    by (simp add: init_state_def)
  have d': "distinct (map failed_id (failedVideos (progress (init_state test_ledger))))"
    and m': "js ''a'' \<in> failed_id ` set (failedVideos (progress (init_state test_ledger)))"
    unfolding q by (simp_all add: test_ledger_def ids_differ)
  have n: "\<not> fst (processVideo retry_world (js ''a'') (init_state test_ledger))"
    by (simp add: processVideo_speech speech_retry_none)
  have "\<exists>e. filter (\<lambda>f. failed_id f = js ''c'')
          (failedVideos (progress (init_state (progress listed_result)))) = [e] \<and>
     filter (\<lambda>f. failed_id f = js ''c'')
       (failedVideos (progress (after_fetch listed_world (listed_video (js ''c''))
          (init_state (progress listed_result))))) =
       [e\<lparr>lastAttempt := clock listed_world (ticks (init_state (progress listed_result)))\<rparr>]"
    using failed_again_entry [OF d m, of listed_world] i listed_c_absent by blast
  then have a: "filter (\<lambda>f. failed_id f = js ''c'')
     (failedVideos (progress (after_fetch listed_world (listed_video (js ''c''))
        (init_state (progress listed_result))))) =
     [\<lparr>failed_id = js ''c'', error = js ''No captions available'', lastAttempt = test_clock 0\<rparr>]"
    by (auto simp: p listed_world_fields)
  have b: "failedVideos (progress (snd (processVideo retry_world (js ''a'') (init_state test_ledger))))
     = failedVideos test_ledger"
    using failed_again_entry [OF d' m', of retry_world] n q by simp
  from d m i listed_c_absent a d' m' n b show ?thesis by blast
qed

text \<open>
  C6 as stated fails for the re-attempts of the speech-to-text script: the video \<open>a\<close> is
  in the failed list, the attempt fails again, and its entry keeps the old
  \<^verbatim>\<open>lastAttempt\<close> although the run took place later (\<^verbatim>\<open>lastRun\<close> is the new clock
  reading).
\<close>

theorem stale_lastAttempt_counterexample:
  "main_transcribe retry_world = Inr retry_result \<and>
   speech_to_text retry_world (js ''a'') = None \<and>
   completed retry_result = 1 \<and>
   failed retry_result = 1 \<and>
   failedVideos (progress retry_result) =
     [\<lparr>failed_id = js ''a'', error = js ''No captions available'', lastAttempt = js ''T''\<rparr>,
      \<lparr>failed_id = js ''b'', error = js ''No captions available'', lastAttempt = js ''T''\<rparr>] \<and>
   lastRun (progress retry_result) = test_clock 0 \<and>
   test_clock 0 \<noteq> js ''T''"
  by (simp add: main_transcribe_retry speech_retry_none test_clock_differ)
     (simp add: retry_result_def test_ledger_def)

section \<open>Running the grabber twice\<close>

lemma all_videos_playlists:
  "playlist_dump w' = playlist_dump w \<Longrightarrow> all_videos w' = all_videos w"
  by (simp add: all_videos_def fetchPlaylistVideos_def)

lemma processed_after_step:
  "set (processedVideos (progress s)) \<subseteq> set (processedVideos (progress (grab_step w e s)))"
  by (cases e) auto

lemma processed_reached:
  assumes "v \<in> set vs" "has_captions w v"
  shows "video_id v \<in> set (processedVideos (progress (grab_all w vs s)))"
  unfolding grab_all_def
proof (rule fold_reaches [where e = "AfterSave v" and I = "\<lambda>s. True"
      and Q = "\<lambda>s. video_id v \<in> set (processedVideos (progress s))"])
  show "AfterSave v \<in> set (sched_trace CONCURRENCY_LIMIT_grab (map (grab_task w) vs) (scheduler w))"
    using assms by (simp add: set_sched_trace grab_events del: set_concat)
next
  fix s :: run_state
  show "video_id v \<in> set (processedVideos (progress (grab_step w (AfterSave v) s)))"
    by simp
next
  fix e' and s :: run_state
  assume "video_id v \<in> set (processedVideos (progress s))"
  then show "video_id v \<in> set (processedVideos (progress (grab_step w e' s)))"
    using processed_after_step [of s w e'] by blast
qed simp_all

lemma processed_kept:
  "set (processedVideos (progress s)) \<subseteq> set (processedVideos (progress (grab_all w vs s)))"
  unfolding grab_all_def
  by (rule fold_invariant_events
        [where P = "\<lambda>s'. set (processedVideos (progress s)) \<subseteq> set (processedVideos (progress s'))"])
     (use processed_after_step in blast)+

lemma done_after_run:
  assumes "main_grab w = Inr s" "loadProgress (progress_file w) = Inr p"
  shows "set (processedVideos (progress s)) =
           set (processedVideos p) \<union>
           {video_id v |v. v \<in> set (pending_videos w p) \<and> has_captions w v}"
proof (cases "pending_videos w p = []")
  case True
  have "s = init_state p" using assms(1) main_grab_none [OF assms(2) True] by simp
  then show ?thesis using True by (simp add: init_state_def)
next
  case False
  let ?G = "grab_all w (pending_videos w p) (init_state p)"
  have s: "s = saveProgress w ?G" using main_grab_some [OF assms(2) False] assms(1) by simp
  have i: "processedVideos (progress (init_state p)) = processedVideos p"
    by (simp add: init_state_def)
  have "\<forall>i \<in> set (processedVideos (progress ?G)). i \<in> set (processedVideos p) \<or>
      (\<exists>v \<in> set (pending_videos w p). video_id v = i \<and> has_captions w v)"
    by (rule processed_grab_all) (simp add: i)
  moreover have "set (processedVideos p) \<subseteq> set (processedVideos (progress ?G))"
    using processed_kept [of "init_state p" w "pending_videos w p"] by (simp add: i)
  moreover have "\<And>v. v \<in> set (pending_videos w p) \<Longrightarrow> has_captions w v \<Longrightarrow>
      video_id v \<in> set (processedVideos (progress ?G))"
    by (rule processed_reached)
  ultimately have "set (processedVideos (progress ?G)) =
           set (processedVideos p) \<union>
           {video_id v |v. v \<in> set (pending_videos w p) \<and> has_captions w v}"
    by blast
  then show ?thesis by (simp add: s)
qed

lemma ledger_after_run:
  assumes "main_grab w = Inr s" "loadProgress (progress_file w) = Inr p"
  shows "loadProgress (ledger_after w s) = Inr (progress s)"
proof (cases "pending_videos w p = []")
  case True
  have "s = init_state p" using assms(1) main_grab_none [OF assms(2) True] by simp
  then show ?thesis using assms(2) by (simp add: ledger_after_def init_state_def)
next
  case False
  have "s = saveProgress w (grab_all w (pending_videos w p) (init_state p))"
    using assms(1) main_grab_some [OF assms(2) False] by simp
  then show ?thesis by (simp add: ledger_after_def loadProgress_def)
qed

lemma pending_second_run:
  assumes "main_grab w = Inr s" "loadProgress (progress_file w) = Inr p"
    and "playlist_dump w' = playlist_dump w"
  shows "pending_videos w' (progress s) =
           filter (\<lambda>v. \<not> has_captions w v) (pending_videos w p)"
proof -
  have d: "set (processedVideos (progress s)) =
           set (processedVideos p) \<union>
           {video_id v |v. v \<in> set (pending_videos w p) \<and> has_captions w v}"
    using assms(1,2) by (rule done_after_run)
  have "video_id v \<notin> set (processedVideos (progress s)) \<longleftrightarrow>
        video_id v \<notin> set (processedVideos p) \<and> \<not> has_captions w v"
    if "v \<in> set (all_videos w)" for v
  proof (cases "video_id v \<in> set (processedVideos p)")
    case True
    then show ?thesis using d by simp
  next
    case False
    then have pv: "v \<in> set (pending_videos w p)" using that by (simp add: pending_videos_def)
    show ?thesis
    proof (cases "has_captions w v")
      case True
      then show ?thesis using d pv by auto
    next
      case n: False
      have "video_id v \<noteq> video_id u" if "has_captions w u" for u
        using that n has_captions_id [of v u w] by auto
      then show ?thesis using d False n by auto
    qed
  qed
  then show ?thesis
    unfolding pending_videos_def all_videos_playlists [OF assms(3)]
    by (auto intro: filter_cong)
qed

text \<open>
  C7, as the code has it. Run the grabber, then run it again on the ledger file the first
  run left and with the same playlists. The videos pending in the second run are the
  pending videos of the first run for which no captions were found: membership in
  \<^verbatim>\<open>processedVideos\<close> is the only test, and a failed video is not in it. When every
  pending video of the first run got its captions, nothing is pending in the second
  run, which returns at once: it writes no caption file, does not change the ledger in
  memory and writes no snapshot, so the ledger file stays as it was.
\<close>

theorem second_run:
  assumes "main_grab w = Inr s"
    and "loadProgress (progress_file w) = Inr p"
    and "progress_file w' = ledger_after w s"
    and "playlist_dump w' = playlist_dump w"
  shows
    "loadProgress (progress_file w') = Inr (progress s) \<and>
     pending_videos w' (progress s) = filter (\<lambda>v. \<not> has_captions w v) (pending_videos w p) \<and>
     ((\<forall>v \<in> set (pending_videos w p). has_captions w v) \<longrightarrow>
        pending_videos w' (progress s) = [] \<and>
        main_grab w' = Inr (init_state (progress s)) \<and>
        progress (init_state (progress s)) = progress s \<and>
        caption_files (init_state (progress s)) = [] \<and>
        progress_writes (init_state (progress s)) = [] \<and>
        ledger_after w' (init_state (progress s)) = progress_file w')"
proof (intro conjI impI)
  show l: "loadProgress (progress_file w') = Inr (progress s)"
    unfolding assms(3) using assms(1,2) by (rule ledger_after_run)
  show q: "pending_videos w' (progress s) =
      filter (\<lambda>v. \<not> has_captions w v) (pending_videos w p)"
    using assms(1,2,4) by (rule pending_second_run)
  assume "\<forall>v \<in> set (pending_videos w p). has_captions w v"
  then show e: "pending_videos w' (progress s) = []" unfolding q by simp
  show "main_grab w' = Inr (init_state (progress s))" using l e by (rule main_grab_none)
  show "progress (init_state (progress s)) = progress s"
    "caption_files (init_state (progress s)) = []"
    "progress_writes (init_state (progress s)) = []"
    "ledger_after w' (init_state (progress s)) = progress_file w'"
    by (simp_all add: init_state_def ledger_after_def)
qed

lemma single_world_fields:
  "progress_file single_world = Missing" "scheduler single_world = []"
  "clock single_world = test_clock"
  by (simp_all add: single_world_def listed_world_fields)

lemma load_single: "loadProgress (progress_file single_world) = Inr fresh_ledger"
  by (simp add: loadProgress_def single_world_fields fresh_ledger_def)

lemma pending_single: "pending_videos single_world fresh_ledger = [listed_video (js ''a'')]"
  by (simp add: pending_videos_def all_videos_def PLAYLISTS_def fetchPlaylistVideos_def
        single_world_def playlists_differ List.map_filter_def listed_video_def
        or_string_def or_number_def fresh_ledger_def)

lemma fetchCaptions_single_a:
  "fetchCaptions single_world (listed_video (js ''a'')) =
     ([DirectCaption], Some [\<lparr>entry_text = js ''hi'', offset = 1, duration = 2\<rparr>])"
  by (simp add: fetchCaptions_def single_world_def listed_world_def caption_world_def
        quiet_world_def listed_video_def)

lemma main_grab_single: "main_grab single_world = Inr single_result"
proof -
  have t: "grab_task single_world (listed_video (js ''a'')) =
        [AfterFetch (listed_video (js ''a'')), AfterSave (listed_video (js ''a''))]"
    by (simp add: grab_task_def has_captions_def fetchCaptions_single_a found_def)
  have i: "video_id (listed_video i) = i" for i
    by (simp add: listed_video_def)
  have g: "saveProgress single_world
      (grab_all single_world [listed_video (js ''a'')] (init_state fresh_ledger)) = single_result"
    by (simp add: grab_all_def t single_world_fields after_fetch_def after_save_def
          fetchCaptions_single_a found_def saveCaptions_def periodic_save_def saveProgress_def
          init_state_def fresh_ledger_def single_result_def Let_def i test_clock_def)
  have n: "pending_videos single_world fresh_ledger \<noteq> []" by (simp add: pending_single)
  show ?thesis using main_grab_some [OF load_single n] g by (simp add: pending_single)
qed

theorem second_run_witness:
  "main_grab single_world = Inr single_result \<and>
   loadProgress (progress_file single_world) = Inr fresh_ledger \<and>
   progress_file (single_world\<lparr>progress_file := Holds (progress single_result)\<rparr>) =
     ledger_after single_world single_result \<and>
   playlist_dump (single_world\<lparr>progress_file := Holds (progress single_result)\<rparr>) =
     playlist_dump single_world \<and>
   has_captions single_world (listed_video (js ''a'')) \<and>
   pending_videos (single_world\<lparr>progress_file := Holds (progress single_result)\<rparr>)
     (progress single_result) = [] \<and>
   main_grab (single_world\<lparr>progress_file := Holds (progress single_result)\<rparr>) =
     Inr (init_state (progress single_result))"
proof -
  let ?w' = "single_world\<lparr>progress_file := Holds (progress single_result)\<rparr>"
  have a: "progress_file ?w' = ledger_after single_world single_result"
    by (simp add: ledger_after_def single_result_def)
  have b: "playlist_dump ?w' = playlist_dump single_world" by simp
  have h: "has_captions single_world (listed_video (js ''a''))"
    by (simp add: has_captions_def fetchCaptions_single_a found_def)
  then have c: "\<forall>v \<in> set (pending_videos single_world fresh_ledger). has_captions single_world v"
    by (simp add: pending_single)
  show ?thesis
    using second_run [OF main_grab_single load_single a b] c main_grab_single load_single a b h
    by blast
qed

lemma second_world_fields:
  "progress_file second_world = Holds (progress listed_result)" "scheduler second_world = []"
  "clock second_world = test_clock" "playlist_dump second_world = playlist_dump listed_world"
  by (simp_all add: second_world_def listed_world_fields)

lemma fetchCaptions_world:
  assumes "fetchTranscript w' = fetchTranscript w" "subtitle_download w' = subtitle_download w"
  shows "fetchCaptions w' v = fetchCaptions w v"
proof -
  have "fetchCaptionsWithYtDlp w' v = fetchCaptionsWithYtDlp w v"
    by (simp add: fetchCaptionsWithYtDlp_def assms(2))
  then show ?thesis
    by (simp add: fetchCaptions_def assms(1) split: transcript_outcome.splits option.splits)
qed

lemma fetchCaptions_second_c:
  "fetchCaptions second_world (listed_video (js ''c'')) = ([DirectCaption, SubtitleFile], None)"
  using fetchCaptions_world [of second_world listed_world "listed_video (js ''c'')"]
  by (simp add: fetchCaptions_listed_c second_world_def)

lemma pending_second:
  "pending_videos second_world (progress listed_result) = [listed_video (js ''c'')]"
proof -
  have "all_videos second_world = [listed_video (js ''a''), listed_video (js ''c'')]"
    using all_videos_playlists [OF second_world_fields(4)] all_videos_listed by simp
  then show ?thesis
    by (simp add: pending_videos_def listed_result_def listed_video_def ids_differ)
qed

lemma main_grab_second: "main_grab second_world = Inr second_result"
proof -
  have l: "loadProgress (progress_file second_world) = Inr (progress listed_result)"
    by (simp add: loadProgress_def second_world_fields)
  have n: "pending_videos second_world (progress listed_result) \<noteq> []"
    by (simp add: pending_second)
  have t: "grab_task second_world (listed_video (js ''c'')) = [AfterFetch (listed_video (js ''c''))]"
    by (simp add: grab_task_def has_captions_def fetchCaptions_second_c found_def)
  have i: "video_id (listed_video i) = i" for i
    by (simp add: listed_video_def)
  have g: "saveProgress second_world
      (grab_all second_world [listed_video (js ''c'')] (init_state (progress listed_result)))
      = second_result"
    by (simp add: grab_all_def t second_world_fields after_fetch_def
          fetchCaptions_second_c found_def periodic_save_def saveProgress_def
          record_failure_def init_state_def listed_result_def second_result_def Let_def i
          test_clock_def)
  show ?thesis using main_grab_some [OF l n] g by (simp add: pending_second)
qed

text \<open>
  C7 as stated fails: the video \<open>c\<close> found no captions in the first run, so it is pending
  again in the second run with the same playlists, and the second run changes the
  ledger (a new \<^verbatim>\<open>lastAttempt\<close>, a new \<^verbatim>\<open>lastRun\<close>) and writes it.
\<close>

theorem second_run_counterexample:
  "main_grab listed_world = Inr listed_result \<and>
   progress_file second_world = ledger_after listed_world listed_result \<and>
   playlist_dump second_world = playlist_dump listed_world \<and>
   pending_videos second_world (progress listed_result) = [listed_video (js ''c'')] \<and>
   main_grab second_world = Inr second_result \<and>
   progress second_result \<noteq> progress listed_result \<and>
   progress_writes second_result \<noteq> []"
proof -
  have "progress_file second_world = ledger_after listed_world listed_result"
    by (simp add: second_world_fields ledger_after_def listed_result_def)
  moreover have "progress second_result \<noteq> progress listed_result"
    by (simp add: second_result_def listed_result_def test_clock_def)
  moreover have "progress_writes second_result \<noteq> []" by (simp add: second_result_def)
  ultimately show ?thesis
    using main_grab_listed second_world_fields(4) pending_second main_grab_second by simp
qed

text \<open>
  Both scripts keep the failed ids of the ledger distinct, so a ledger that was only ever
  written by them has one entry per id.
\<close>

lemma distinct_main_grab:
  assumes "loadProgress (progress_file w) = Inr p" "distinct (map failed_id (failedVideos p))"
    and "main_grab w = Inr s"
  shows "distinct (map failed_id (failedVideos (progress s)))"
proof (cases "pending_videos w p = []")
  case True
  then have "s = init_state p" using main_grab_none [OF assms(1)] assms(3) by simp
  then show ?thesis using assms(2) by (simp add: init_state_def)
next
  case False
  then have "s = saveProgress w (grab_all w (pending_videos w p) (init_state p))"
    using main_grab_some [OF assms(1)] assms(3) by simp
  moreover have "distinct (map failed_id (failedVideos (progress (init_state p))))"
    using assms(2) by (simp add: init_state_def)
  ultimately show ?thesis using distinct_grab_all by simp
qed

lemma distinct_transcribe_all:
  "distinct (map failed_id (failedVideos (progress s))) \<Longrightarrow>
   distinct (map failed_id (failedVideos (progress (transcribe_all w fs s))))"
  by (rule transcribe_all_invariant) (simp_all add: mark_done_def distinct_map_filter)

lemma distinct_main_transcribe:
  assumes "loadProgress (progress_file w) = Inr p" "distinct (map failed_id (failedVideos p))"
    and "main_transcribe w = Inr s"
  shows "distinct (map failed_id (failedVideos (progress s)))"
proof (cases "failedVideos p = []")
  case True
  then have "s = init_state p" using main_transcribe_none [OF assms(1)] assms(3) by simp
  then show ?thesis using assms(2) by (simp add: init_state_def)
next
  case False
  then have "s = saveProgress w (transcribe_all w (to_process w p) (init_state p))"
    using main_transcribe_some [OF assms(1)] assms(3) by simp
  moreover have "distinct (map failed_id (failedVideos (progress (init_state p))))"
    using assms(2) by (simp add: init_state_def)
  ultimately show ?thesis using distinct_transcribe_all by simp
qed


section \<open>The limit of the speech-to-text script\<close>


lemma js_indexOf_nonneg: "x \<in> set xs \<Longrightarrow> 0 \<le> js_indexOf xs x"
  by (induction xs) (auto simp: Let_def)

lemma js_indexOf_first:
  "x \<notin> set pre \<Longrightarrow> js_indexOf (pre @ x # post) x = int (length pre)"
proof (induction pre)
  case Nil
  show ?case by simp
next
  case (Cons y pre)
  then have "js_indexOf (pre @ x # post) x = int (length pre)" by simp
  then show ?case using Cons.prems by (auto simp: Let_def)
qed



lemma limit_without_value:
  assumes "js ''--limit'' \<notin> set pre"
  shows "limit_of_args (pre @ [js ''--limit'']) = Some 1"
proof -
  have i: "js_indexOf (pre @ [js ''--limit'']) (js ''--limit'') = int (length pre)"
    using assms by (rule js_indexOf_first)
  have "js_nth (pre @ [js ''--limit'']) (int (length pre) + 1) = None"
    by (simp add: js_nth_def)
  then show ?thesis using i by (simp add: limit_of_args_def Let_def)
qed











section \<open>Properties of the subtitle-file parser\<close>





















text \<open>Blocks.\<close>

lemma includes_Cons: "js_includes (c # s) pat \<longleftrightarrow> take (length pat) (c # s) = pat \<or> js_includes s pat"
  by simp











lemma take_digits_Some:
  "take_digits n s = Some (d, r) \<Longrightarrow> s = d @ r \<and> length d = n \<and> list_all is_js_digit d"
  by (auto simp: take_digits_def split: if_splits)

lemma match_clock_groups:
  "match_clock s = Some (g, r) \<Longrightarrow> length g = 4 \<and> (\<forall>d \<in> set g. list_all is_js_digit d)"
  by (auto simp: match_clock_def split: option.splits dest!: take_digits_Some)

lemma match_at_groups:
  "match_at s = Some m \<Longrightarrow> length m = 8 \<and> (\<forall>d \<in> set m. list_all is_js_digit d)"
  by (auto simp: match_at_def split: option.splits dest!: match_clock_groups)

lemma match_timestamp_groups:
  "match_timestamp s = Some m \<Longrightarrow> length m = 8 \<and> (\<forall>d \<in> set m. list_all is_js_digit d)"
proof (induction s)
  case Nil
  then show ?case using match_at_groups [of "[]" m] by simp
next
  case (Cons c s)
  then show ?case using match_at_groups [of "c # s" m] by (auto split: option.splits)
qed



















end
